theory Spec2Isabelle
  imports
    Main
    "HOL-Library.Word"
    "HOL-Library.Char_ord"
    "HOL-Library.List_Lexorder"
    "HOL-Library.Multiset"
    "HOL-Library.Signed_Division"
begin

unbundle bit_operations_syntax

section \<open>Request signing of the futures client (v2/futures)\<close>

text \<open>
  The development embeds the signing pipeline of \<^verbatim>\<open>v2/futures\<close>: \<^verbatim>\<open>normalize\<close>,
  \<^verbatim>\<open>normalizeAndStringify\<close>, \<^verbatim>\<open>cloneInterface\<close>, \<^verbatim>\<open>genNonce\<close>, \<^verbatim>\<open>Client.sign\<close> and
  \<^verbatim>\<open>Client.call\<close>. Go strings and byte slices are byte sequences: a Go \<^verbatim>\<open>string\<close> is a
  \<^typ>\<open>string\<close> (Isabelle characters are bytes), a \<^verbatim>\<open>[]byte\<close> is a list of 8-bit words.
  The order on strings is the byte-wise lexicographic order, which is the order of Go's
  \<^verbatim>\<open><\<close> on strings and hence of \<^verbatim>\<open>sort.Strings\<close>.
\<close>

subsection \<open>Dynamic values\<close>

type_synonym byte = "8 word"

text \<open>
  Keys of a \<^verbatim>\<open>map[interface{}]interface{}\<close>: strings, integers and booleans.
\<close>

datatype ikey = KString string | KInt int | KBool bool

text \<open>
  The values an \<^verbatim>\<open>interface{}\<close> of a parameter tree may hold. A Go map is an association
  list: the order of the list is the order in which \<^verbatim>\<open>range\<close> happens to visit the
  entries (which Go leaves unspecified and which depends on insertion history), and the
  keys of a map are pairwise distinct (\<open>keys_distinct\<close> below). A \<^verbatim>\<open>float64\<close> is its IEEE-754 bit
  pattern; \<open>VInt\<close> stands for a value of any Go integer kind; \<open>VStruct\<close> is a struct
  value, given by its exported fields under their JSON names in declaration order;
  \<open>VOther\<close> stands for the kinds \<^verbatim>\<open>encoding/json\<close> rejects (channels, functions, complex
  numbers).
\<close>

datatype val =
    VNil
  | VBool bool
  | VFloat "64 word"
  | VInt int
  | VString string
  | VSlice "val list"
  | VMap "(string \<times> val) list"
  | VIMap "(ikey \<times> val) list"
  | VStruct "(string \<times> val) list"
  | VOther

text \<open>Go errors, as values.\<close>

datatype error =
    UnsupportedTypeError string
  | UnsupportedValueError string
  | errorString string
  | wrapError string error
  | LibError string
  | APIError "byte list"

text \<open>
  \<open>UnsupportedTypeError\<close> and \<open>UnsupportedValueError\<close> are the two errors of
  \<^verbatim>\<open>json.Marshal\<close>; \<open>errorString s\<close> is \<^verbatim>\<open>errors.New(s)\<close> and \<^verbatim>\<open>fmt.Errorf\<close> without
  \<^verbatim>\<open>%w\<close>; \<open>wrapError p e\<close> is \<^verbatim>\<open>fmt.Errorf(p + "%w", e)\<close>, whose \<^verbatim>\<open>Unwrap\<close> is \<open>e\<close>;
  \<open>LibError\<close> is an error made inside go-ethereum or \<^verbatim>\<open>net/http\<close>; \<open>APIError\<close> is the
  \<^verbatim>\<open>common.APIError\<close> built from a response body.
\<close>

subsection \<open>Map access\<close>

text \<open>\<^verbatim>\<open>m[k]\<close> read: the zero value \<^verbatim>\<open>nil\<close> when the key is absent.\<close>

definition index :: "('k \<times> val) list \<Rightarrow> 'k \<Rightarrow> val" where
  "index m k = (case map_of m k of None \<Rightarrow> VNil | Some v \<Rightarrow> v)"

text \<open>\<^verbatim>\<open>m[k] = v\<close>: replaces the value of a present key, adds an absent one.\<close>

fun mapassign :: "('k \<times> 'v) list \<Rightarrow> 'k \<Rightarrow> 'v \<Rightarrow> ('k \<times> 'v) list" where
  "mapassign [] k v = [(k, v)]"
| "mapassign ((k', v') # m) k v =
     (if k' = k then (k, v) # m else (k', v') # mapassign m k v)"

text \<open>Well-formed values: the keys of every map, at every depth, are pairwise distinct.\<close>

fun keys_distinct :: "val \<Rightarrow> bool" where
  "keys_distinct (VSlice xs) = (\<forall>x \<in> set xs. keys_distinct x)"
| "keys_distinct (VMap m) = (distinct (map fst m) \<and> (\<forall>(k, v) \<in> set m. keys_distinct v))"
| "keys_distinct (VIMap m) = (distinct (map fst m) \<and> (\<forall>(k, v) \<in> set m. keys_distinct v))"
| "keys_distinct (VStruct m) = (distinct (map fst m) \<and> (\<forall>(k, v) \<in> set m. keys_distinct v))"
| "keys_distinct v = True"

subsection \<open>Decimal text of integers\<close>

definition digit_char :: "int \<Rightarrow> char" where
  "digit_char d = ''0123456789'' ! nat d"

function int_digits :: "int \<Rightarrow> string" where
  "int_digits n = (if n < 10 then [digit_char n] else int_digits (n div 10) @ [digit_char (n mod 10)])"
  by pat_completeness auto
termination
  by (relation "measure nat") auto

declare int_digits.simps [simp del]

text \<open>\<^verbatim>\<open>strconv.FormatInt(i, 10)\<close>, also the \<^verbatim>\<open>%d\<close> and \<^verbatim>\<open>%v\<close> text of an integer.\<close>

definition FormatInt :: "int \<Rightarrow> string" where
  "FormatInt i = (if i < 0 then CHR ''-'' # int_digits (- i) else int_digits i)"

subsection \<open>normalize\<close>

text \<open>\<^verbatim>\<open>fmt.Sprint(k)\<close> of a map key.\<close>

fun Sprint_key :: "ikey \<Rightarrow> string" where
  "Sprint_key (KString s) = s"
| "Sprint_key (KInt i) = FormatInt i"
| "Sprint_key (KBool b) = (if b then ''true'' else ''false'')"

text \<open>
  The second loop of the \<^verbatim>\<open>map[interface{}]interface{}\<close> case:
  \<^verbatim>\<open>for _, k := range keys { newMap[k] = val[k] }\<close>. The index \<^verbatim>\<open>val[k]\<close> is taken with
  the string \<open>k\<close>, so it finds the entry whose key is that string and is \<^verbatim>\<open>nil\<close> for a
  key of any other dynamic type.
\<close>

fun imap_rebuild ::
  "(ikey \<times> val) list \<Rightarrow> string list \<Rightarrow> (string \<times> val) list \<Rightarrow> (string \<times> val) list" where
  "imap_rebuild val [] newMap = newMap"
| "imap_rebuild val (k # keys) newMap =
     imap_rebuild val keys (mapassign newMap k (index val (KString k)))"

text \<open>The nesting depth of a value; it bounds the recursion of \<^verbatim>\<open>normalize\<close> and of the encoder.\<close>

primrec list_max :: "nat list \<Rightarrow> nat" where
  "list_max [] = 0"
| "list_max (x # xs) = max x (list_max xs)"

fun rank :: "val \<Rightarrow> nat" where
  "rank (VSlice xs) = Suc (list_max (map rank xs))"
| "rank (VMap m) = Suc (list_max (map (\<lambda>(k, v). rank v) m))"
| "rank (VIMap m) = Suc (Suc (list_max (map (\<lambda>(k, v). rank v) m)))"
| "rank (VStruct m) = Suc (list_max (map (\<lambda>(k, v). rank v) m))"
| "rank v = 0"

lemma list_max_ge: "x \<in> set xs \<Longrightarrow> x \<le> list_max xs"
  by (induction xs) auto

lemma list_max_le_iff: "list_max xs \<le> n \<longleftrightarrow> (\<forall>x \<in> set xs. x \<le> n)"
  by (induction xs) auto

lemma list_max_cong_set: "set xs = set ys \<Longrightarrow> list_max xs = list_max ys"
  by (rule antisym) (simp_all add: list_max_le_iff list_max_ge)

lemma rank_index_le: "rank (index m k) \<le> list_max (map (\<lambda>(k, v). rank v) m)"
proof (cases "map_of m k")
  case None
  then show ?thesis by (simp add: index_def)
next
  case (Some v)
  then have "(k, v) \<in> set m" by (rule map_of_SomeD)
  then have "rank v \<in> set (map (\<lambda>(k, v). rank v) m)" by force
  then show ?thesis using Some by (simp add: index_def list_max_ge)
qed

lemma ranks_mapassign:
  "list_max (map (\<lambda>(k, v). rank v) (mapassign m k v))
     \<le> max (rank v) (list_max (map (\<lambda>(k, v). rank v) m))"
  by (induction m) auto

lemma ranks_imap_rebuild:
  "list_max (map (\<lambda>(k, v). rank v) (imap_rebuild val ks newMap))
     \<le> max (list_max (map (\<lambda>(k, v). rank v) newMap)) (list_max (map (\<lambda>(k, v). rank v) val))"
proof (induction ks arbitrary: newMap)
  case Nil
  then show ?case by simp
next
  case (Cons k ks)
  have "list_max (map (\<lambda>(k, v). rank v) (mapassign newMap k (index val (KString k))))
          \<le> max (list_max (map (\<lambda>(k, v). rank v) newMap)) (list_max (map (\<lambda>(k, v). rank v) val))"
    using ranks_mapassign [of newMap k "index val (KString k)"] rank_index_le [of val "KString k"]
    by linarith
  with Cons.IH [of "mapassign newMap k (index val (KString k))"] show ?case
    by simp
qed

text \<open>
  \<^verbatim>\<open>normalize\<close> (the name \<open>normalize\<close> is taken in HOL). \<open>normalize_keys\<close> is the loop
  \<^verbatim>\<open>for _, k := range keys\<close> of the \<^verbatim>\<open>map[string]interface{}\<close> case, with \<open>newMap\<close> as its
  state; \<open>normalize_items\<close> is the loop over a slice, with \<open>out\<close> as its state. The
  \<^verbatim>\<open>default\<close> case returns the value itself.
\<close>

function (sequential) normalizeV :: "val \<Rightarrow> error + val"
  and normalize_keys ::
    "(string \<times> val) list \<Rightarrow> string list \<Rightarrow> (string \<times> val) list \<Rightarrow> error + val"
  and normalize_items :: "val list \<Rightarrow> val list \<Rightarrow> error + val"
where
  "normalizeV (VMap val) = normalize_keys val (sort (map fst val)) []"
| "normalizeV (VIMap val) =
     normalizeV (VMap (imap_rebuild val (sort (map (Sprint_key \<circ> fst) val)) []))"
| "normalizeV (VSlice val) = normalize_items val []"
| "normalizeV val = Inr val"
| "normalize_keys val [] newMap = Inr (VMap newMap)"
| "normalize_keys val (k # keys) newMap =
     (case normalizeV (index val k) of
        Inl err \<Rightarrow> Inl err
      | Inr nv \<Rightarrow> normalize_keys val keys (mapassign newMap k nv))"
| "normalize_items [] out = Inr (VSlice out)"
| "normalize_items (it # rest) out =
     (case normalizeV it of
        Inl err \<Rightarrow> Inl err
      | Inr nv \<Rightarrow> normalize_items rest (out @ [nv]))"
  by pat_completeness auto
termination
  apply (relation "inv_image (less_than <*lex*> less_than)
    (\<lambda>x. case x of
        Inl v \<Rightarrow> (rank v, 0)
      | Inr (Inl (val, ks, newMap)) \<Rightarrow> (list_max (map (\<lambda>(k, v). rank v) val), Suc (length ks))
      | Inr (Inr (xs, out)) \<Rightarrow> (list_max (map rank xs), Suc (length xs)))")
  subgoal by (intro wf_inv_image wf_lex_prod wf_less_than)
  subgoal by simp
  subgoal for val
    using ranks_imap_rebuild [of val "sort (map (Sprint_key \<circ> fst) val)" "[]"] by simp
  subgoal by simp
  subgoal for val k keys newMap
    using rank_index_le [of val k] by auto
  subgoal by simp
  subgoal by auto
  subgoal by auto
  done

subsection \<open>The libraries the pipeline calls\<close>

text \<open>
  The arguments of \<^verbatim>\<open>abi.Arguments.Pack\<close>: the ABI types made by \<^verbatim>\<open>abi.NewType\<close> and the
  Go values packed. An address (\<^verbatim>\<open>common.Address\<close>, \<^verbatim>\<open>[20]byte\<close>) is a byte list.
\<close>

datatype abi_type = StringTy | AddressTy | UintTy nat | BytesTy | BoolTy

datatype abi_arg = ArgString string | ArgAddress "byte list" | ArgBigInt int

text \<open>
  What the pipeline calls outside this package is a parameter of every function below:
  the float formatting and parsing of \<^verbatim>\<open>strconv\<close> as used by \<^verbatim>\<open>encoding/json\<close>
  (floating-point arithmetic is not part of the embedding), go-ethereum's
  \<^verbatim>\<open>common.HexToAddress\<close>, \<^verbatim>\<open>abi.NewType\<close>, \<^verbatim>\<open>abi.Arguments.Pack\<close>, \<^verbatim>\<open>crypto.Keccak256\<close>,
  \<^verbatim>\<open>crypto.HexToECDSA\<close> and \<^verbatim>\<open>crypto.Sign\<close> with the results their Go signatures have (an
  error result where the Go function has one; \<^verbatim>\<open>HexToAddress\<close> and \<^verbatim>\<open>Keccak256\<close> have
  none), and the HTTP exchange of \<^verbatim>\<open>Client.send\<close> (the full URL, the method and the
  parameters go out; a body and a status code, or an error, come back). A private key is
  the number \<^verbatim>\<open>D\<close> of the \<^verbatim>\<open>ecdsa.PrivateKey\<close>.
\<close>

record golib =
  FormatFloat :: "64 word \<Rightarrow> string"
  ParseFloat :: "string \<Rightarrow> 64 word"
  HexToAddress :: "string \<Rightarrow> byte list"
  NewType :: "string \<Rightarrow> error + abi_type"
  Pack :: "abi_type list \<Rightarrow> abi_arg list \<Rightarrow> error + byte list"
  Keccak256 :: "byte list \<Rightarrow> byte list"
  HexToECDSA :: "string \<Rightarrow> error + int"
  Sign :: "byte list \<Rightarrow> int \<Rightarrow> error + byte list"
  send :: "string \<Rightarrow> string \<Rightarrow> (string \<times> val) list \<Rightarrow> error + (byte list \<times> int)"

subsection \<open>encoding/json: Marshal\<close>

definition hex_digit :: "nat \<Rightarrow> char" where
  "hex_digit n = ''0123456789abcdef'' ! n"

definition htmlSafeSet :: "char \<Rightarrow> bool" where
  "htmlSafeSet b \<longleftrightarrow>
     32 \<le> (of_char b :: nat) \<and> (of_char b :: nat) < 128 \<and>
     b \<noteq> CHR 0x22 \<and> b \<noteq> CHR ''&'' \<and> b \<noteq> CHR ''<'' \<and> b \<noteq> CHR ''>'' \<and> b \<noteq> CHR 0x5C"

definition escape_byte :: "char \<Rightarrow> string" where
  "escape_byte b =
     (if b = CHR 0x5C \<or> b = CHR 0x22 then [CHR 0x5C, b]
      else if b = CHR 0x08 then [CHR 0x5C, CHR ''b'']
      else if b = CHR 0x0C then [CHR 0x5C, CHR ''f'']
      else if b = CHR 0x0A then [CHR 0x5C, CHR ''n'']
      else if b = CHR 0x0D then [CHR 0x5C, CHR ''r'']
      else if b = CHR 0x09 then [CHR 0x5C, CHR ''t'']
      else [CHR 0x5C, CHR ''u'', CHR ''0'', CHR ''0'',
            hex_digit (of_char b div 16), hex_digit (of_char b mod 16)])"

definition in_range :: "nat \<Rightarrow> nat \<Rightarrow> char \<Rightarrow> bool" where
  "in_range lo hi c \<longleftrightarrow> lo \<le> of_char c \<and> (of_char c :: nat) \<le> hi"

definition multi_size :: "nat \<Rightarrow> nat \<Rightarrow> nat \<Rightarrow> string \<Rightarrow> nat" where
  "multi_size sz lo hi ps =
     (if Suc (length ps) < sz then 0
      else if \<not> in_range lo hi (ps ! 0) then 0
      else if sz \<le> 2 then 2
      else if \<not> in_range 0x80 0xBF (ps ! 1) then 0
      else if sz \<le> 3 then 3
      else if \<not> in_range 0x80 0xBF (ps ! 2) then 0
      else 4)"

fun DecodeRune_size :: "string \<Rightarrow> nat" where
  "DecodeRune_size [] = 0"
| "DecodeRune_size (p0 # ps) =
     (let b = (of_char p0 :: nat) in
      if b < 0x80 then 1
      else if 0xC2 \<le> b \<and> b \<le> 0xDF then multi_size 2 0x80 0xBF ps
      else if b = 0xE0 then multi_size 3 0xA0 0xBF ps
      else if b = 0xED then multi_size 3 0x80 0x9F ps
      else if 0xE1 \<le> b \<and> b \<le> 0xEF then multi_size 3 0x80 0xBF ps
      else if b = 0xF0 then multi_size 4 0x90 0xBF ps
      else if 0xF1 \<le> b \<and> b \<le> 0xF3 then multi_size 4 0x80 0xBF ps
      else if b = 0xF4 then multi_size 4 0x80 0x8F ps
      else 0)"

fun appendString_loop :: "string \<Rightarrow> string" where
  "appendString_loop [] = []"
| "appendString_loop (b # src) =
     (if (of_char b :: nat) < 0x80 then
        (if htmlSafeSet b then b # appendString_loop src
         else escape_byte b @ appendString_loop src)
      else if DecodeRune_size (b # src) = 0 then
        (CHR 0x5C # ''ufffd'') @ appendString_loop src
      else if take 3 (b # src) = [CHR 0xE2, CHR 0x80, CHR 0xA8] then
        (CHR 0x5C # ''u2028'') @ appendString_loop (drop 2 src)
      else if take 3 (b # src) = [CHR 0xE2, CHR 0x80, CHR 0xA9] then
        (CHR 0x5C # ''u2029'') @ appendString_loop (drop 2 src)
      else take (DecodeRune_size (b # src)) (b # src)
             @ appendString_loop (drop (DecodeRune_size (b # src) - 1) src))"

definition appendString :: "string \<Rightarrow> string" where
  "appendString s = CHR 0x22 # appendString_loop s @ [CHR 0x22]"


definition IsNaN :: "64 word \<Rightarrow> bool" where
  "IsNaN f \<longleftrightarrow> drop_bit 52 f AND 0x7FF = 0x7FF \<and> f AND 0xFFFFFFFFFFFFF \<noteq> 0"

definition IsInf :: "64 word \<Rightarrow> bool" where
  "IsInf f \<longleftrightarrow> drop_bit 52 f AND 0x7FF = 0x7FF \<and> f AND 0xFFFFFFFFFFFFF = 0"

definition special_float_text :: "64 word \<Rightarrow> string" where
  "special_float_text f = (if IsNaN f then ''NaN'' else if bit f 63 then ''-Inf'' else ''+Inf'')"

fun join_comma :: "string list \<Rightarrow> string" where
  "join_comma [] = []"
| "join_comma [s] = s"
| "join_comma (s # ss) = s @ '','' @ join_comma ss"

function (sequential) json_encode :: "golib \<Rightarrow> val \<Rightarrow> error + string"
  and encode_elems :: "golib \<Rightarrow> val list \<Rightarrow> error + string list"
  and encode_fields :: "golib \<Rightarrow> (string \<times> val) list \<Rightarrow> error + string list"
where
  "json_encode L VNil = Inr ''null''"
| "json_encode L (VBool b) = Inr (if b then ''true'' else ''false'')"
| "json_encode L (VFloat f) =
     (if IsInf f \<or> IsNaN f then Inl (UnsupportedValueError (special_float_text f))
      else Inr (FormatFloat L f))"
| "json_encode L (VInt i) = Inr (FormatInt i)"
| "json_encode L (VString s) = Inr (appendString s)"
| "json_encode L (VSlice xs) =
     (case encode_elems L xs of
        Inl err \<Rightarrow> Inl err
      | Inr ss \<Rightarrow> Inr (''['' @ join_comma ss @ '']''))"
| "json_encode L (VMap m) =
     (case encode_fields L (sort_key fst m) of
        Inl err \<Rightarrow> Inl err
      | Inr ss \<Rightarrow> Inr (''{'' @ join_comma ss @ ''}''))"
| "json_encode L (VIMap m) = Inl (UnsupportedTypeError ''map[interface {}]interface {}'')"
| "json_encode L (VStruct fs) =
     (case encode_fields L fs of
        Inl err \<Rightarrow> Inl err
      | Inr ss \<Rightarrow> Inr (''{'' @ join_comma ss @ ''}''))"
| "json_encode L VOther = Inl (UnsupportedTypeError ''chan, func or complex'')"
| "encode_elems L [] = Inr []"
| "encode_elems L (x # xs) =
     (case json_encode L x of
        Inl err \<Rightarrow> Inl err
      | Inr s \<Rightarrow>
         (case encode_elems L xs of
            Inl err \<Rightarrow> Inl err
          | Inr ss \<Rightarrow> Inr (s # ss)))"
| "encode_fields L [] = Inr []"
| "encode_fields L ((k, v) # kvs) =
     (case json_encode L v of
        Inl err \<Rightarrow> Inl err
      | Inr s \<Rightarrow>
         (case encode_fields L kvs of
            Inl err \<Rightarrow> Inl err
          | Inr ss \<Rightarrow> Inr ((appendString k @ '':'' @ s) # ss)))"
  by pat_completeness auto
termination
  apply (relation "inv_image (less_than <*lex*> less_than)
    (\<lambda>x. case x of
        Inl (L, v) \<Rightarrow> (rank v, 0)
      | Inr (Inl (L, xs)) \<Rightarrow> (list_max (map rank xs), Suc (length xs))
      | Inr (Inr (L, kvs)) \<Rightarrow> (list_max (map (\<lambda>(k, v). rank v) kvs), Suc (length kvs)))")
  subgoal by (intro wf_inv_image wf_lex_prod wf_less_than)
  subgoal by simp
  subgoal for L m
    using list_max_cong_set [of "map (\<lambda>(k, v). rank v) (sort_key fst m)" "map (\<lambda>(k, v). rank v) m"]
    by simp
  subgoal by simp
  subgoal by auto
  subgoal by auto
  subgoal by auto
  subgoal by auto
  done

definition json_Marshal :: "golib \<Rightarrow> val \<Rightarrow> error + string" where
  "json_Marshal L v = json_encode L v"

definition normalizeAndStringify :: "golib \<Rightarrow> val \<Rightarrow> error + string" where
  "normalizeAndStringify L v =
     (case normalizeV v of
        Inl err \<Rightarrow> Inl err
      | Inr norm \<Rightarrow>
         (case json_Marshal L norm of
            Inl err \<Rightarrow> Inl err
          | Inr bs \<Rightarrow> Inr bs))"

subsection \<open>encoding/json: Unmarshal into an interface value\<close>

text \<open>
  \<^verbatim>\<open>json.Unmarshal(bs, &out)\<close> for an \<^verbatim>\<open>out\<close> of type \<^verbatim>\<open>interface{}\<close> that starts as
  \<^verbatim>\<open>nil\<close>: the text is split into tokens and the tokens drive a stack of open arrays and
  objects. A text that is not one JSON value is an error, on which \<^verbatim>\<open>Unmarshal\<close> leaves
  \<^verbatim>\<open>out\<close> as it was. A number is handed to \<open>ParseFloat\<close>; an object becomes a
  \<^verbatim>\<open>map[string]interface{}\<close> (a repeated key keeps its last value), an array a
  \<^verbatim>\<open>[]interface{}\<close>.
\<close>

definition fromHexChar :: "char \<Rightarrow> nat option" where
  "fromHexChar c =
     (let n = (of_char c :: nat) in
      if 48 \<le> n \<and> n \<le> 57 then Some (n - 48)
      else if 97 \<le> n \<and> n \<le> 102 then Some (n - 87)
      else if 65 \<le> n \<and> n \<le> 70 then Some (n - 55)
      else None)"

definition getu4 :: "string \<Rightarrow> nat option" where
  "getu4 s =
     (case map fromHexChar (take 4 s) of
        [Some a, Some b, Some c, Some d] \<Rightarrow> Some (((a * 16 + b) * 16 + c) * 16 + d)
      | _ \<Rightarrow> None)"

definition EncodeRune :: "nat \<Rightarrow> string" where
  "EncodeRune r =
     (if r < 0x80 then [char_of r]
      else if r < 0x800 then [char_of (0xC0 + r div 64), char_of (0x80 + r mod 64)]
      else if (0xD800 \<le> r \<and> r < 0xE000) \<or> 0x10FFFF < r then [CHR 0xEF, CHR 0xBF, CHR 0xBD]
      else if r < 0x10000 then
        [char_of (0xE0 + r div 4096), char_of (0x80 + r div 64 mod 64), char_of (0x80 + r mod 64)]
      else
        [char_of (0xF0 + r div 262144), char_of (0x80 + r div 4096 mod 64),
         char_of (0x80 + r div 64 mod 64), char_of (0x80 + r mod 64)])"

definition simple_escape :: "char \<Rightarrow> char option" where
  "simple_escape e =
     (if e = CHR 0x22 \<or> e = CHR 0x5C \<or> e = CHR ''/'' then Some e
      else if e = CHR ''b'' then Some (CHR 0x08)
      else if e = CHR ''f'' then Some (CHR 0x0C)
      else if e = CHR ''n'' then Some (CHR 0x0A)
      else if e = CHR ''r'' then Some (CHR 0x0D)
      else if e = CHR ''t'' then Some (CHR 0x09)
      else None)"

definition surrogate_pair :: "nat \<Rightarrow> string \<Rightarrow> nat option" where
  "surrogate_pair rr s =
     (if take 2 s = [CHR 0x5C, CHR ''u''] then
        (case getu4 (drop 2 s) of
           None \<Rightarrow> None
         | Some rr1 \<Rightarrow>
            if 0xD800 \<le> rr \<and> rr < 0xDC00 \<and> 0xDC00 \<le> rr1 \<and> rr1 < 0xE000
            then Some ((rr - 0xD800) * 1024 + (rr1 - 0xDC00) + 0x10000)
            else None)
      else None)"

fun unquote :: "string \<Rightarrow> string \<Rightarrow> (string \<times> string) option" where
  "unquote [] acc = None"
| "unquote (c # s) acc =
     (if c = CHR 0x22 then Some (acc, s)
      else if (of_char c :: nat) < 0x20 then None
      else if c = CHR 0x5C then
        (case s of
           [] \<Rightarrow> None
         | e # s' \<Rightarrow>
            if e = CHR ''u'' then
              (case getu4 s' of
                 None \<Rightarrow> None
               | Some rr \<Rightarrow>
                  if 0xD800 \<le> rr \<and> rr < 0xE000 then
                    (case surrogate_pair rr (drop 4 s') of
                       Some dec \<Rightarrow> unquote (drop 10 s') (acc @ EncodeRune dec)
                     | None \<Rightarrow> unquote (drop 4 s') (acc @ EncodeRune 0xFFFD))
                  else unquote (drop 4 s') (acc @ EncodeRune rr))
            else
              (case simple_escape e of
                 None \<Rightarrow> None
               | Some ch \<Rightarrow> unquote s' (acc @ [ch])))
      else if (of_char c :: nat) < 0x80 then unquote s (acc @ [c])
      else if DecodeRune_size (c # s) = 0 then unquote s (acc @ EncodeRune 0xFFFD)
      else unquote (drop (DecodeRune_size (c # s) - 1) s)
             (acc @ take (DecodeRune_size (c # s)) (c # s)))"

text \<open>The text left after a string literal is shorter than the text it was read from.\<close>

lemma unquote_rest: "unquote s acc = Some (str, rest) \<Longrightarrow> length rest \<le> length s"
proof (induction s acc rule: unquote.induct)
  case (1 acc)
  then show ?case by simp
next
  case (2 c s acc)
  note IH = "2.IH"
  note eq = "2.prems"
  show ?case
  proof (cases "c = CHR 0x22")
    case True
    with eq show ?thesis by simp
  next
    case nq: False
    show ?thesis
    proof (cases "(of_char c :: nat) < 0x20")
      case True
      with nq eq show ?thesis by simp
    next
      case nc: False
      show ?thesis
      proof (cases "c = CHR 0x5C")
        case bs: True
        show ?thesis
        proof (cases s)
          case Nil
          with nq nc bs eq show ?thesis by simp
        next
          case (Cons e s')
          show ?thesis
          proof (cases "e = CHR ''u''")
            case u: True
            show ?thesis
            proof (cases "getu4 s'")
              case None
              with nq nc bs Cons u eq show ?thesis by simp
            next
              case (Some rr)
              show ?thesis
              proof (cases "0xD800 \<le> rr \<and> rr < 0xE000")
                case sur: True
                show ?thesis
                proof (cases "surrogate_pair rr (drop 4 s')")
                  case None
                  with nq nc bs Cons u Some sur eq
                  have "unquote (drop 4 s') (acc @ EncodeRune 0xFFFD) = Some (str, rest)" by simp
                  from IH(1) [OF nq nc bs Cons u Some sur None this] Cons show ?thesis by simp
                next
                  case (Some dec)
                  with nq nc bs Cons u \<open>getu4 s' = Some rr\<close> sur eq
                  have "unquote (drop 10 s') (acc @ EncodeRune dec) = Some (str, rest)" by simp
                  from IH(2) [OF nq nc bs Cons u \<open>getu4 s' = Some rr\<close> sur Some this] Cons
                  show ?thesis by simp
                qed
              next
                case nsur: False
                with nq nc bs Cons u Some eq
                have "unquote (drop 4 s') (acc @ EncodeRune rr) = Some (str, rest)" by simp
                from IH(3) [OF nq nc bs Cons u Some nsur this] Cons show ?thesis by simp
              qed
            qed
          next
            case nu: False
            show ?thesis
            proof (cases "simple_escape e")
              case None
              with nq nc bs Cons nu eq show ?thesis by simp
            next
              case (Some ch)
              with nq nc bs Cons nu eq
              have "unquote s' (acc @ [ch]) = Some (str, rest)" by simp
              from IH(4) [OF nq nc bs Cons nu Some this] Cons show ?thesis by simp
            qed
          qed
        qed
      next
        case nbs: False
        show ?thesis
        proof (cases "(of_char c :: nat) < 0x80")
          case True
          with nq nc nbs eq have "unquote s (acc @ [c]) = Some (str, rest)" by simp
          from IH(5) [OF nq nc nbs True this] show ?thesis by simp
        next
          case na: False
          show ?thesis
          proof (cases "DecodeRune_size (c # s) = 0")
            case True
            with nq nc nbs na eq have "unquote s (acc @ EncodeRune 0xFFFD) = Some (str, rest)"
              by simp
            from IH(6) [OF nq nc nbs na True this] show ?thesis by simp
          next
            case False
            with nq nc nbs na eq
            have "unquote (drop (DecodeRune_size (c # s) - 1) s)
                    (acc @ take (DecodeRune_size (c # s)) (c # s)) = Some (str, rest)"
              by simp
            from IH(7) [OF nq nc nbs na False this] show ?thesis by simp
          qed
        qed
      qed
    qed
  qed
qed

datatype token =
    TLBrace | TRBrace | TLBrack | TRBrack | TComma | TColon
  | TString string | TNumber string | TTrue | TFalse | TNull | TBad

definition number_char :: "char \<Rightarrow> bool" where
  "number_char c \<longleftrightarrow> c \<in> set ''-+.eE0123456789''"

definition digit :: "char \<Rightarrow> bool" where
  "digit c \<longleftrightarrow> c \<in> set ''0123456789''"

definition space_char :: "char \<Rightarrow> bool" where
  "space_char c \<longleftrightarrow> c = CHR '' '' \<or> c = CHR 0x09 \<or> c = CHR 0x0A \<or> c = CHR 0x0D"

text \<open>The grammar of a JSON number: sign, integer part, fraction, exponent.\<close>

definition valid_exponent :: "string \<Rightarrow> bool" where
  "valid_exponent s =
     (let s1 = (case s of c # r \<Rightarrow> if c = CHR ''+'' \<or> c = CHR ''-'' then r else s | [] \<Rightarrow> s)
      in s1 \<noteq> [] \<and> list_all digit s1)"

definition valid_fraction :: "string \<Rightarrow> bool" where
  "valid_fraction s =
     (case s of
        [] \<Rightarrow> True
      | c # r \<Rightarrow>
         if c = CHR ''.'' then
           takeWhile digit r \<noteq> [] \<and>
           (case dropWhile digit r of
              [] \<Rightarrow> True
            | e # x \<Rightarrow> (e = CHR ''e'' \<or> e = CHR ''E'') \<and> valid_exponent x)
         else (c = CHR ''e'' \<or> c = CHR ''E'') \<and> valid_exponent r)"

definition valid_number :: "string \<Rightarrow> bool" where
  "valid_number s =
     (let s1 = (case s of c # r \<Rightarrow> if c = CHR ''-'' then r else s | [] \<Rightarrow> s);
          ip = takeWhile digit s1
      in ip \<noteq> [] \<and> (if hd ip = CHR ''0'' then length ip = 1 else True) \<and>
         valid_fraction (dropWhile digit s1))"

function lex :: "string \<Rightarrow> token list" where
  "lex [] = []"
| "lex (c # s) =
     (if c = CHR ''{'' then TLBrace # lex s
      else if c = CHR ''}'' then TRBrace # lex s
      else if c = CHR ''['' then TLBrack # lex s
      else if c = CHR '']'' then TRBrack # lex s
      else if c = CHR '','' then TComma # lex s
      else if c = CHR '':'' then TColon # lex s
      else if c = CHR 0x22 then
        (case unquote s [] of
           None \<Rightarrow> [TBad]
         | Some (str, rest) \<Rightarrow> TString str # lex rest)
      else if c = CHR ''t'' then (if take 3 s = ''rue'' then TTrue # lex (drop 3 s) else [TBad])
      else if c = CHR ''f'' then (if take 4 s = ''alse'' then TFalse # lex (drop 4 s) else [TBad])
      else if c = CHR ''n'' then (if take 3 s = ''ull'' then TNull # lex (drop 3 s) else [TBad])
      else if space_char c then lex s
      else if number_char c then
        (if valid_number (c # takeWhile number_char s)
         then TNumber (c # takeWhile number_char s) # lex (dropWhile number_char s)
         else [TBad])
      else [TBad])"
  by pat_completeness auto
termination
  by (relation "measure length")
     (auto simp: length_dropWhile_le less_Suc_eq_le dest: unquote_rest [THEN le_imp_less_Suc] sym)

datatype astate = AStart | AAfterValue | AAfterComma

datatype ostate = OStart | OAfterKey string | OAfterColon string | OAfterValue | OAfterComma

datatype frame = FArr "val list" astate | FObj "(string \<times> val) list" ostate

datatype pstate = PErr | PState "frame list" "val option"

text \<open>A complete value arrives: as the document, as the next element, or under the pending key.\<close>

fun put :: "val \<Rightarrow> frame list \<Rightarrow> val option \<Rightarrow> pstate" where
  "put v [] None = PState [] (Some v)"
| "put v (FArr xs AStart # fs) res = PState (FArr (xs @ [v]) AAfterValue # fs) res"
| "put v (FArr xs AAfterComma # fs) res = PState (FArr (xs @ [v]) AAfterValue # fs) res"
| "put v (FObj m (OAfterColon k) # fs) res = PState (FObj (mapassign m k v) OAfterValue # fs) res"
| "put v fs res = PErr"

fun value_allowed :: "frame list \<Rightarrow> val option \<Rightarrow> bool" where
  "value_allowed [] None = True"
| "value_allowed (FArr xs AStart # fs) res = True"
| "value_allowed (FArr xs AAfterComma # fs) res = True"
| "value_allowed (FObj m (OAfterColon k) # fs) res = True"
| "value_allowed fs res = False"

fun parse_step :: "golib \<Rightarrow> token \<Rightarrow> pstate \<Rightarrow> pstate" where
  "parse_step L t PErr = PErr"
| "parse_step L TBad (PState fs res) = PErr"
| "parse_step L TLBrace (PState fs res) =
     (if value_allowed fs res then PState (FObj [] OStart # fs) res else PErr)"
| "parse_step L TLBrack (PState fs res) =
     (if value_allowed fs res then PState (FArr [] AStart # fs) res else PErr)"
| "parse_step L TRBrace (PState (FObj m OStart # fs) res) = put (VMap m) fs res"
| "parse_step L TRBrace (PState (FObj m OAfterValue # fs) res) = put (VMap m) fs res"
| "parse_step L TRBrace (PState fs res) = PErr"
| "parse_step L TRBrack (PState (FArr xs AStart # fs) res) = put (VSlice xs) fs res"
| "parse_step L TRBrack (PState (FArr xs AAfterValue # fs) res) = put (VSlice xs) fs res"
| "parse_step L TRBrack (PState fs res) = PErr"
| "parse_step L TComma (PState (FArr xs AAfterValue # fs) res) = PState (FArr xs AAfterComma # fs) res"
| "parse_step L TComma (PState (FObj m OAfterValue # fs) res) = PState (FObj m OAfterComma # fs) res"
| "parse_step L TComma (PState fs res) = PErr"
| "parse_step L TColon (PState (FObj m (OAfterKey k) # fs) res) = PState (FObj m (OAfterColon k) # fs) res"
| "parse_step L TColon (PState fs res) = PErr"
| "parse_step L (TString s) (PState (FObj m OStart # fs) res) = PState (FObj m (OAfterKey s) # fs) res"
| "parse_step L (TString s) (PState (FObj m OAfterComma # fs) res) = PState (FObj m (OAfterKey s) # fs) res"
| "parse_step L (TString s) (PState fs res) = put (VString s) fs res"
| "parse_step L (TNumber n) (PState fs res) = put (VFloat (ParseFloat L n)) fs res"
| "parse_step L TTrue (PState fs res) = put (VBool True) fs res"
| "parse_step L TFalse (PState fs res) = put (VBool False) fs res"
| "parse_step L TNull (PState fs res) = put VNil fs res"

definition json_Unmarshal :: "golib \<Rightarrow> string \<Rightarrow> val" where
  "json_Unmarshal L bs =
     (case fold (parse_step L) (lex bs) (PState [] None) of
        PState [] (Some out) \<Rightarrow> out
      | _ \<Rightarrow> VNil)"

subsection \<open>strings and encoding/hex\<close>

definition TrimPrefix :: "string \<Rightarrow> string \<Rightarrow> string" where
  "TrimPrefix s prefix = (if take (length prefix) s = prefix then drop (length prefix) s else s)"

definition TrimRight :: "string \<Rightarrow> string \<Rightarrow> string" where
  "TrimRight s cutset = rev (dropWhile (\<lambda>c. c \<in> set cutset) (rev s))"

text \<open>\<^verbatim>\<open>hex.EncodeToString\<close>: two lower-case digits for each byte.\<close>

definition EncodeToString :: "byte list \<Rightarrow> string" where
  "EncodeToString bs = concat (map (\<lambda>b. [hex_digit (unat b div 16), hex_digit (unat b mod 16)]) bs)"

subsection \<open>The client\<close>

record client =
  User :: string
  Signer :: string
  PriKeyHex :: string
  BaseURL :: string

text \<open>
  \<^verbatim>\<open>genNonce\<close>. Its argument is the \<^verbatim>\<open>int64\<close> that \<^verbatim>\<open>time.Now().UnixMicro()\<close> returns at
  the call; the conversion \<^verbatim>\<open>uint64(micro)\<close> reads the same 64 bits as unsigned.
\<close>

definition genNonce :: "int \<Rightarrow> int" where
  "genNonce micro = micro mod 2 ^ 64"

text \<open>The message prefix of \<^verbatim>\<open>Client.sign\<close>, \<^verbatim>\<open>"\x19Ethereum Signed Message:\n"\<close>.\<close>

definition message_prefix :: string where
  "message_prefix = CHR 0x19 # ''Ethereum Signed Message:'' @ [CHR 0x0A]"

definition string_bytes :: "string \<Rightarrow> byte list" where
  "string_bytes s = map of_char s"

text \<open>
  \<^verbatim>\<open>Client.sign\<close>. The map \<open>params\<close> is updated in place by the Go code; the model returns
  the map as the call leaves it, whether it fails or not, and the error if there is one.
  \<open>nano\<close> is the \<^verbatim>\<open>int64\<close> that \<^verbatim>\<open>time.Now().UnixNano()\<close> returns; Go's division of
  integers truncates.
\<close>

definition sign ::
  "golib \<Rightarrow> client \<Rightarrow> (string \<times> val) list \<Rightarrow> int \<Rightarrow> int \<Rightarrow> (string \<times> val) list \<times> error option" where
  "sign L c params0 nonce nano =
     (let params1 = mapassign params0 ''recvWindow'' (VString ''50000'');
          timestamp = FormatInt (nano sdiv 1000000);
          params = mapassign params1 ''timestamp'' (VString timestamp)
      in case normalizeAndStringify L (VMap params) of
           Inl err \<Rightarrow> (params, Some err)
         | Inr trimmed \<Rightarrow>
      let argString = trimmed;
          addrUser = HexToAddress L (User c);
          addrSigner = HexToAddress L (Signer c);
          nonceBig = nonce
      in case NewType L ''string'' of
           Inl err \<Rightarrow> (params, Some err)
         | Inr tString \<Rightarrow>
         case NewType L ''address'' of
           Inl err \<Rightarrow> (params, Some err)
         | Inr tAddress \<Rightarrow>
         case NewType L ''uint256'' of
           Inl err \<Rightarrow> (params, Some err)
         | Inr tUint256 \<Rightarrow>
         case Pack L [tString, tAddress, tAddress, tUint256]
                [ArgString argString, ArgAddress addrUser, ArgAddress addrSigner, ArgBigInt nonceBig] of
           Inl err \<Rightarrow> (params, Some (wrapError ''abi pack error: '' err))
         | Inr packed \<Rightarrow>
      let hash = Keccak256 L packed;
          prefixedMsg =
            string_bytes (message_prefix @ FormatInt (int (length hash))) @ hash;
          msgHash = Keccak256 L prefixedMsg
      in case HexToECDSA L (TrimPrefix (PriKeyHex c) ''0x'') of
           Inl err \<Rightarrow> (params, Some (wrapError ''invalid private key: '' err))
         | Inr privKey \<Rightarrow>
         case Sign L msgHash privKey of
           Inl err \<Rightarrow> (params, Some (wrapError ''sign error: '' err))
         | Inr sig \<Rightarrow>
           if length sig \<noteq> 65 then
             (params,
              Some (errorString (''unexpected signature length: '' @ FormatInt (int (length sig)))))
           else
             let sig1 = sig[64 := sig ! 64 + 27];
                 sigHex = ''0x'' @ EncodeToString sig1;
                 params2 = mapassign params ''user'' (VString (User c));
                 params3 = mapassign params2 ''signer'' (VString (Signer c));
                 params4 = mapassign params3 ''signature'' (VString sigHex);
                 params5 = mapassign params4 ''nonce'' (VInt nonce)
             in (params5, None))"

text \<open>
  \<^verbatim>\<open>cloneInterface\<close>: the copy made by a JSON round trip. When \<^verbatim>\<open>json.Marshal\<close> fails the
  function returns its argument: the same object, not a copy. The second component says
  whether the result is the argument itself (True) or a value made by \<^verbatim>\<open>Unmarshal\<close>.
\<close>

definition cloneInterface :: "golib \<Rightarrow> val \<Rightarrow> val \<times> bool" where
  "cloneInterface L v =
     (case json_Marshal L v of
        Inl err \<Rightarrow> (v, True)
      | Inr bs \<Rightarrow> (json_Unmarshal L bs, False))"

text \<open>
  What a call of \<^verbatim>\<open>Client.call\<close> does: the pair it returns (\<open>Inl\<close> is \<^verbatim>\<open>(nil, err)\<close>), the
  requests handed to the transport (URL, method, parameters), and the contents of the
  caller's object \<^verbatim>\<open>api["params"]\<close> when the call is over.
\<close>

record outcome =
  returned :: "error + byte list"
  requests :: "(string \<times> string \<times> (string \<times> val) list) list"
  template :: val

definition string_of :: "val \<Rightarrow> string" where
  "string_of v = (case v of VString s \<Rightarrow> s | _ \<Rightarrow> [])"

text \<open>The part of \<^verbatim>\<open>Client.call\<close> from \<^verbatim>\<open>// send request\<close> on.\<close>

definition call_send ::
  "golib \<Rightarrow> client \<Rightarrow> (string \<times> val) list \<Rightarrow> (string \<times> val) list \<Rightarrow> val \<Rightarrow> outcome" where
  "call_send L c api paramsMap tmpl =
     (let urlPath = string_of (index api ''url'');
          method = string_of (index api ''method'');
          fullUrl = TrimRight (BaseURL c) ''/'' @ urlPath
      in case send L fullUrl method paramsMap of
           Inl err \<Rightarrow>
             \<lparr>returned = Inl err, requests = [(fullUrl, method, paramsMap)], template = tmpl\<rparr>
         | Inr (respBody, statusCode) \<Rightarrow>
             if statusCode \<ge> 400 then
               \<lparr>returned = Inl (APIError respBody), requests = [(fullUrl, method, paramsMap)],
                template = tmpl\<rparr>
             else
               \<lparr>returned = Inr respBody, requests = [(fullUrl, method, paramsMap)],
                template = tmpl\<rparr>)"

text \<open>
  \<^verbatim>\<open>Client.call\<close>. \<open>micro\<close> and \<open>nano\<close> are the clock readings of \<^verbatim>\<open>genNonce\<close> and of
  \<^verbatim>\<open>sign\<close>. When \<^verbatim>\<open>cloneInterface\<close> returned its argument, \<open>paramsMap\<close> is the caller's
  map and the updates of \<^verbatim>\<open>sign\<close> are updates of that map.
\<close>

definition call :: "golib \<Rightarrow> client \<Rightarrow> (string \<times> val) list \<Rightarrow> bool \<Rightarrow> int \<Rightarrow> int \<Rightarrow> outcome" where
  "call L c api do_sign micro nano =
     (let tmpl = index api ''params'';
          (params, same) = cloneInterface L tmpl
      in case params of
           VMap paramsMap \<Rightarrow>
             if do_sign then
               let nonce = genNonce micro;
                   (paramsMap1, err) = sign L c paramsMap nonce nano;
                   tmpl1 = (if same then VMap paramsMap1 else tmpl)
               in (case err of
                     Some e \<Rightarrow> \<lparr>returned = Inl e, requests = [], template = tmpl1\<rparr>
                   | None \<Rightarrow> call_send L c api paramsMap1 tmpl1)
             else call_send L c api paramsMap tmpl
         | _ \<Rightarrow>
             \<lparr>returned = Inl (errorString ''params must be map[string]interface{}''),
              requests = [], template = tmpl\<rparr>)"

subsection \<open>A library instance for concrete runs\<close>

text \<open>
  The instance keeps what go-ethereum fixes and the pipeline can observe: the lenient
  conversion of \<^verbatim>\<open>common.HexToAddress\<close>, the type names of \<^verbatim>\<open>abi.NewType\<close>, the ABI layout of \<^verbatim>\<open>Pack\<close> for the tuple
  \<^verbatim>\<open>(string, address, address, uint256)\<close>, the checks of \<^verbatim>\<open>HexToECDSA\<close> (64 hex digits, a
  key between 1 and the group order) and the 32-byte digest required by \<^verbatim>\<open>crypto.Sign\<close>.
  Keccak-256 and the ECDSA signature themselves are replaced by placeholders of the same
  shape (32 and 65 bytes, a recovery byte of 0 or 1), floats are not rendered, and the
  transport answers every request with an empty body and status 200.
\<close>

fun be_bytes :: "nat \<Rightarrow> int \<Rightarrow> byte list" where
  "be_bytes 0 n = []"
| "be_bytes (Suc k) n = be_bytes k (n div 256) @ [of_int n]"

definition U256Bytes :: "int \<Rightarrow> byte list" where
  "U256Bytes n = be_bytes 32 n"

definition RightPadBytes :: "byte list \<Rightarrow> nat \<Rightarrow> byte list" where
  "RightPadBytes bs l = (if l \<le> length bs then bs else bs @ replicate (l - length bs) 0)"

definition LeftPadBytes :: "byte list \<Rightarrow> nat \<Rightarrow> byte list" where
  "LeftPadBytes bs l = (if l \<le> length bs then bs else replicate (l - length bs) 0 @ bs)"

definition abi_NewType :: "string \<Rightarrow> error + abi_type" where
  "abi_NewType t =
     (if t = ''string'' then Inr StringTy
      else if t = ''address'' then Inr AddressTy
      else if t = ''uint256'' then Inr (UintTy 256)
      else if t = ''bytes'' then Inr BytesTy
      else if t = ''bool'' then Inr BoolTy
      else Inl (LibError ''unsupported arg type''))"

fun pack_element :: "abi_type \<Rightarrow> abi_arg \<Rightarrow> error + byte list" where
  "pack_element StringTy (ArgString s) =
     Inr (U256Bytes (int (length s)) @ RightPadBytes (string_bytes s) ((length s + 31) div 32 * 32))"
| "pack_element AddressTy (ArgAddress a) = Inr (LeftPadBytes a 32)"
| "pack_element (UintTy n) (ArgBigInt i) = Inr (U256Bytes i)"
| "pack_element t a = Inl (LibError ''abi: cannot use argument as type'')"

fun pack_loop ::
  "(abi_type \<times> abi_arg) list \<Rightarrow> nat \<Rightarrow> byte list \<Rightarrow> byte list \<Rightarrow> error + byte list" where
  "pack_loop [] inputOffset ret variableInput = Inr (ret @ variableInput)"
| "pack_loop ((t, a) # rest) inputOffset ret variableInput =
     (case pack_element t a of
        Inl err \<Rightarrow> Inl err
      | Inr packed \<Rightarrow>
         if t = StringTy \<or> t = BytesTy then
           pack_loop rest (inputOffset + length packed) (ret @ U256Bytes (int inputOffset))
             (variableInput @ packed)
         else pack_loop rest inputOffset (ret @ packed) variableInput)"

definition abi_Pack :: "abi_type list \<Rightarrow> abi_arg list \<Rightarrow> error + byte list" where
  "abi_Pack types args =
     (if length args \<noteq> length types then Inl (LibError ''argument count mismatch'')
      else pack_loop (zip types args) (32 * length types) [] [])"

text \<open>
  \<^verbatim>\<open>hex.DecodeString\<close>: the bytes decoded before the first character that is not a hex
  digit, and whether the whole string was decoded (no error). An odd trailing character
  is an error too.
\<close>

fun DecodeString :: "string \<Rightarrow> byte list \<times> bool" where
  "DecodeString (p # q # rest) =
     (case (fromHexChar p, fromHexChar q) of
        (Some a, Some b) \<Rightarrow>
          (case DecodeString rest of (bs, ok) \<Rightarrow> (of_nat (a * 16 + b) # bs, ok))
      | _ \<Rightarrow> ([], False))"
| "DecodeString [p] = ([], False)"
| "DecodeString [] = ([], True)"

text \<open>
  \<^verbatim>\<open>common.HexToAddress\<close>, from go-ethereum: \<^verbatim>\<open>BytesToAddress(FromHex(s))\<close>. \<^verbatim>\<open>FromHex\<close>
  drops a \<^verbatim>\<open>0x\<close> prefix, pads an odd length with a leading \<^verbatim>\<open>0\<close> and decodes with
  \<^verbatim>\<open>Hex2Bytes\<close>, which discards the error of \<^verbatim>\<open>hex.DecodeString\<close>; \<^verbatim>\<open>BytesToAddress\<close>
  keeps the last 20 bytes, or pads on the left to 20. No step can fail.
\<close>

definition has0xPrefix :: "string \<Rightarrow> bool" where
  "has0xPrefix str \<longleftrightarrow>
     length str \<ge> 2 \<and> str ! 0 = CHR ''0'' \<and> (str ! 1 = CHR ''x'' \<or> str ! 1 = CHR ''X'')"

definition Hex2Bytes :: "string \<Rightarrow> byte list" where
  "Hex2Bytes str = fst (DecodeString str)"

definition FromHex :: "string \<Rightarrow> byte list" where
  "FromHex s =
     (let s1 = (if has0xPrefix s then drop 2 s else s);
          s2 = (if odd (length s1) then CHR ''0'' # s1 else s1)
      in Hex2Bytes s2)"

definition BytesToAddress :: "byte list \<Rightarrow> byte list" where
  "BytesToAddress b =
     (let b1 = (if length b > 20 then drop (length b - 20) b else b)
      in replicate (20 - length b1) 0 @ b1)"

definition common_HexToAddress :: "string \<Rightarrow> byte list" where
  "common_HexToAddress s = BytesToAddress (FromHex s)"

definition secp256k1_N :: int where
  "secp256k1_N = 0xFFFFFFFFFFFFFFFFFFFFFFFFFFFFFFFEBAAEDCE6AF48A03BBFD25E8CD0364141"

definition bytes_int :: "byte list \<Rightarrow> int" where
  "bytes_int bs = foldl (\<lambda>n b. n * 256 + uint b) 0 bs"

definition crypto_HexToECDSA :: "string \<Rightarrow> error + int" where
  "crypto_HexToECDSA hexkey =
     (case DecodeString hexkey of
        (b, False) \<Rightarrow> Inl (LibError ''invalid hex data for private key'')
      | (b, True) \<Rightarrow>
          if 8 * length b \<noteq> 256 then Inl (LibError ''invalid length, need 256 bits'')
          else if bytes_int b \<ge> secp256k1_N then Inl (LibError ''invalid private key, >=N'')
          else if bytes_int b = 0 then Inl (LibError ''invalid private key, zero or negative'')
          else Inr (bytes_int b))"

definition placeholder_Keccak256 :: "byte list \<Rightarrow> byte list" where
  "placeholder_Keccak256 bs = replicate 31 0 @ [of_nat (length bs)]"

definition placeholder_Sign :: "byte list \<Rightarrow> int \<Rightarrow> error + byte list" where
  "placeholder_Sign digestHash prv =
     (if length digestHash \<noteq> 32 then Inl (LibError ''hash is required to be exactly 32 bytes'')
      else Inr (digestHash @ replicate 31 0 @ [1] @ [of_int (prv mod 2)]))"

definition test_lib :: golib where
  "test_lib =
     \<lparr>FormatFloat = (\<lambda>f. ''0''), ParseFloat = (\<lambda>s. 0), HexToAddress = common_HexToAddress,
      NewType = abi_NewType, Pack = abi_Pack,
      Keccak256 = placeholder_Keccak256, HexToECDSA = crypto_HexToECDSA,
      Sign = placeholder_Sign, send = (\<lambda>fullUrl method params. Inr ([], 200))\<rparr>"

definition test_client :: client where
  "test_client =
     \<lparr>User = ''0x63DD5aCC6b1aa0f563956C0e534DD30B6dcF7C4e'',
      Signer = ''0x21cF8Ae13Bb72632562c6Fff438652Ba1a151bb0'',
      PriKeyHex = ''0x4fd0a42218f3eae43a6ce26d22544e986139a01e5b34a62db53757ffca81bae1'',
      BaseURL = ''https://fapi.asterdex.com/''\<rparr>"

definition api_listenKey :: "(string \<times> val) list" where
  "api_listenKey =
     [(''url'', VString ''/fapi/v3/listenKey''), (''method'', VString ''POST''),
      (''params'', VMap [(''listenKey'', VString ''abc'')])]"

text \<open>The parameters of the order used in the examples.\<close>

definition order_params :: "(string \<times> val) list" where
  "order_params =
     [(''symbol'', VString ''BTCUSDT''), (''side'', VString ''BUY''), (''quantity'', VString ''1.5'')]"

text \<open>An API descriptor for an order, with the given \<^verbatim>\<open>params\<close> entry.\<close>

definition order_api :: "val \<Rightarrow> (string \<times> val) list" where
  "order_api params =
     [(''url'', VString ''/fapi/v3/order''), (''method'', VString ''POST''), (''params'', params)]"

text \<open>The same libraries, with a signer that returns the 64 bytes of R and S only.\<close>

definition compact_sig_lib :: golib where
  "compact_sig_lib = test_lib\<lparr>Sign := (\<lambda>digestHash prv. Inr (digestHash @ digestHash))\<rparr>"

text \<open>The values of an \<^verbatim>\<open>int64\<close>.\<close>

definition int64 :: "int \<Rightarrow> bool" where
  "int64 x \<longleftrightarrow> - (2 ^ 63) \<le> x \<and> x < 2 ^ 63"

subsection \<open>Names for the intermediate values of sign\<close>

text \<open>
  The parameters as \<^verbatim>\<open>sign\<close> canonicalizes them: the map it was given, with \<^verbatim>\<open>recvWindow\<close>
  and \<^verbatim>\<open>timestamp\<close> assigned.
\<close>

definition fresh_params :: "(string \<times> val) list \<Rightarrow> int \<Rightarrow> (string \<times> val) list" where
  "fresh_params params0 nano =
     mapassign (mapassign params0 ''recvWindow'' (VString ''50000''))
       ''timestamp'' (VString (FormatInt (nano sdiv 1000000)))"

text \<open>The digest handed to \<^verbatim>\<open>crypto.Sign\<close> for the packed tuple.\<close>

definition message_digest :: "golib \<Rightarrow> byte list \<Rightarrow> byte list" where
  "message_digest L packed =
     Keccak256 L
       (string_bytes (message_prefix @ FormatInt (int (length (Keccak256 L packed))))
        @ Keccak256 L packed)"

text \<open>\<^verbatim>\<open>common.IsHexAddress\<close>: 40 hex digits after an optional \<^verbatim>\<open>0x\<close>.\<close>

definition IsHexAddress :: "string \<Rightarrow> bool" where
  "IsHexAddress s =
     (let s1 = (if has0xPrefix s then drop 2 s else s)
      in length s1 = 40 \<and> list_all (\<lambda>c. fromHexChar c \<noteq> None) s1)"

subsection \<open>The same tree under another order of its map entries\<close>

text \<open>
  \<open>reordered v v'\<close>: \<open>v'\<close> is \<open>v\<close> with the entries of its maps, at any depth, visited in
  another order. The keys of a map of \<open>v'\<close> are a permutation of the keys of the map of
  \<open>v\<close> it stands for, and under each key the two maps hold values that are again the same
  up to such reordering. Slices and struct fields keep their order.
\<close>

fun is_scalar :: "val \<Rightarrow> bool" where
  "is_scalar (VSlice xs) = False"
| "is_scalar (VMap m) = False"
| "is_scalar (VIMap m) = False"
| "is_scalar (VStruct fs) = False"
| "is_scalar v = True"

inductive reordered :: "val \<Rightarrow> val \<Rightarrow> bool" where
  scalar: "is_scalar v \<Longrightarrow> reordered v v"
| slice: "list_all2 reordered xs ys \<Longrightarrow> reordered (VSlice xs) (VSlice ys)"
| smap: "mset (map fst m') = mset (map fst m) \<Longrightarrow>
         (\<forall>k \<in> set (map fst m). reordered (index m k) (index m' k)) \<Longrightarrow>
         reordered (VMap m) (VMap m')"
| imap: "mset (map fst m') = mset (map fst m) \<Longrightarrow>
         (\<forall>k \<in> set (map fst m). reordered (index m k) (index m' k)) \<Longrightarrow>
         reordered (VIMap m) (VIMap m')"
| struct: "map fst fs' = map fst fs \<Longrightarrow>
         list_all2 reordered (map snd fs) (map snd fs') \<Longrightarrow>
         reordered (VStruct fs) (VStruct fs')"


text \<open>Auxiliary relations for the proof that \<open>normalizeV\<close> respects \<open>reordered\<close>.\<close>

definition norm_rel :: "val \<Rightarrow> val \<Rightarrow> bool" where
  "norm_rel v v' \<longleftrightarrow>
     (\<exists>n n'. normalizeV v = Inr n \<and> normalizeV v' = Inr n' \<and> reordered n n' \<and> keys_distinct n)"

definition entries_rel :: "(string \<times> val) list \<Rightarrow> (string \<times> val) list \<Rightarrow> bool" where
  "entries_rel r r' \<longleftrightarrow>
     map fst r' = map fst r \<and> distinct (map fst r) \<and>
     (\<forall>k \<in> set (map fst r). reordered (index r k) (index r' k) \<and> keys_distinct (index r k))"


subsection \<open>Decoder states that cannot end in an object\<close>

text \<open>
  \<^verbatim>\<open>Client.call\<close> asserts that the clone is a \<^verbatim>\<open>map[string]interface{}\<close>. The decoder
  produces such a map only from a document whose first token opens an object. The
  invariant \<open>no_map_state\<close> holds of every state the decoder reaches from any other first
  token: the state is an error, a finished document that is not a map, or a stack of
  open containers whose outermost one is an array.
\<close>

fun is_VMap :: "val \<Rightarrow> bool" where
  "is_VMap (VMap m) = True"
| "is_VMap v = False"

fun bottom_is_array :: "frame list \<Rightarrow> bool" where
  "bottom_is_array [] = False"
| "bottom_is_array [FArr xs st] = True"
| "bottom_is_array [FObj m st] = False"
| "bottom_is_array (f # g # fs) = bottom_is_array (g # fs)"

fun no_map_state :: "pstate \<Rightarrow> bool" where
  "no_map_state PErr = True"
| "no_map_state (PState [] None) = False"
| "no_map_state (PState [] (Some v)) = (\<not> is_VMap v)"
| "no_map_state (PState (f # fs) None) = bottom_is_array (f # fs)"
| "no_map_state (PState (f # fs) (Some v)) = False"


section \<open>Properties\<close>

subsection \<open>Facts about map access\<close>

lemma index_present: "distinct (map fst m) \<Longrightarrow> (k, v) \<in> set m \<Longrightarrow> index m k = v"
  by (simp add: index_def)

lemma index_absent: "k \<notin> set (map fst m) \<Longrightarrow> index m k = VNil"
  by (simp add: index_def map_of_eq_None_iff [THEN iffD2])

lemma index_mem: "k \<in> set (map fst m) \<Longrightarrow> (k, index m k) \<in> set m"
  by (induction m) (auto simp: index_def)

lemma keys_distinct_index:
  "distinct (map fst m) \<Longrightarrow> \<forall>(k, v) \<in> set m. keys_distinct v \<Longrightarrow> keys_distinct (index m k)"
proof (cases "k \<in> set (map fst m)")
  case True
  assume "\<forall>(k, v) \<in> set m. keys_distinct v"
  with index_mem [OF True] show ?thesis by blast
next
  case False
  then show ?thesis by (simp add: index_absent)
qed

lemma entries_by_keys:
  "distinct (map fst m) \<Longrightarrow> set ys \<subseteq> set m \<Longrightarrow> ys = map (\<lambda>k. (k, index m k)) (map fst ys)"
  by (induction ys) (auto simp: index_present)

lemma map_fst_insort_key: "map fst (insort_key fst x xs) = insort (fst x) (map fst xs)"
  by (induction xs) auto

lemma map_fst_sort_key: "map fst (sort_key fst m) = sort (map fst m)"
  by (induction m) (simp_all add: map_fst_insort_key)

lemma sort_key_by_keys:
  assumes "distinct (map fst m)"
  shows "sort_key fst m = map (\<lambda>k. (k, index m k)) (sort (map fst m))"
proof -
  have "set (sort_key fst m) \<subseteq> set m" by simp
  from entries_by_keys [OF assms this] show ?thesis
    by (simp add: map_fst_sort_key)
qed

lemma sort_keys_eq: "mset xs = mset ys \<Longrightarrow> sort xs = sort ys"
  by (rule properties_for_sort) simp_all

lemma map_fst_mapassign:
  "map fst (mapassign m k v) = (if k \<in> set (map fst m) then map fst m else map fst m @ [k])"
  by (induction m) force+

lemma index_mapassign: "index (mapassign m k v) j = (if j = k then v else index m j)"
  by (induction m) (auto simp: index_def)

lemma distinct_mapassign: "distinct (map fst m) \<Longrightarrow> distinct (map fst (mapassign m k v))"
  by (simp add: map_fst_mapassign)


subsection \<open>The encoder respects reordering\<close>

lemma encode_fields_by_keys:
  "(\<forall>k \<in> set ks. json_encode L (index m k) = json_encode L (index m' k)) \<Longrightarrow>
   encode_fields L (map (\<lambda>k. (k, index m k)) ks) = encode_fields L (map (\<lambda>k. (k, index m' k)) ks)"
  by (induction ks) (simp_all split: sum.splits)

lemma encode_elems_cong:
  "list_all2 (\<lambda>x y. json_encode L x = json_encode L y) xs ys \<Longrightarrow>
   encode_elems L xs = encode_elems L ys"
  by (induction xs ys rule: list_all2_induct) (simp_all split: sum.splits)

lemma encode_fields_cong:
  "map fst fs' = map fst fs \<Longrightarrow>
   list_all2 (\<lambda>x y. json_encode L x = json_encode L y) (map snd fs) (map snd fs') \<Longrightarrow>
   encode_fields L fs = encode_fields L fs'"
proof (induction fs arbitrary: fs')
  case Nil
  then show ?case by simp
next
  case (Cons f fs)
  then obtain g gs where fs': "fs' = g # gs" by (cases fs') auto
  with Cons.prems have "fst g = fst f" "json_encode L (snd f) = json_encode L (snd g)"
    "map fst gs = map fst fs"
    "list_all2 (\<lambda>x y. json_encode L x = json_encode L y) (map snd fs) (map snd gs)"
    by simp_all
  with Cons.IH [of gs] fs' show ?case
    by (cases f; cases g) (simp split: sum.splits)
qed

lemma json_encode_reordered:
  "reordered v v' \<Longrightarrow> keys_distinct v \<Longrightarrow> json_encode L v = json_encode L v'"
proof (induction rule: reordered.induct)
  case (scalar v)
  then show ?case by simp
next
  case (slice xs ys)
  have "list_all2 (\<lambda>x y. json_encode L x = json_encode L y) xs ys"
    using slice.IH slice.prems by (auto elim!: list.rel_mono_strong)
  then show ?case by (simp add: encode_elems_cong)
next
  case (smap m' m)
  from smap.prems have d: "distinct (map fst m)" and kd: "\<forall>(k, v) \<in> set m. keys_distinct v"
    by simp_all
  from smap.hyps(1) d have d': "distinct (map fst m')"
    using mset_eq_imp_distinct_iff by blast
  have ks: "sort (map fst m') = sort (map fst m)"
    using smap.hyps(1) by (rule sort_keys_eq)
  have "\<forall>k \<in> set (sort (map fst m)). json_encode L (index m k) = json_encode L (index m' k)"
    using smap.IH keys_distinct_index [OF d kd] by simp
  then have "encode_fields L (sort_key fst m) = encode_fields L (sort_key fst m')"
    using encode_fields_by_keys [of "sort (map fst m)" L m m']
    by (simp add: sort_key_by_keys [OF d] sort_key_by_keys [OF d'] ks)
  then show ?case by simp
next
  case (imap m' m)
  then show ?case by simp
next
  case (struct fs' fs)
  from struct.prems have kd: "\<forall>x \<in> set (map snd fs). keys_distinct x"
    by auto
  have "list_all2 (\<lambda>x y. json_encode L x = json_encode L y) (map snd fs) (map snd fs')"
    using struct.IH kd by (auto elim!: list.rel_mono_strong)
  with struct.hyps(1) have "encode_fields L fs = encode_fields L fs'"
    by (rule encode_fields_cong)
  then show ?case by simp
qed


subsection \<open>normalize respects reordering\<close>

lemma norm_rel_scalar: "is_scalar v \<Longrightarrow> norm_rel v v"
  by (cases v) (simp_all add: norm_rel_def reordered.scalar)

lemma entries_rel_Nil: "entries_rel [] []"
  by (simp add: entries_rel_def)

lemma entries_rel_mapassign:
  assumes "entries_rel r r'" "reordered v v'" "keys_distinct v"
  shows "entries_rel (mapassign r k v) (mapassign r' k v')"
  using assms unfolding entries_rel_def
  by (auto simp: map_fst_mapassign index_mapassign)

lemma entries_rel_VMap:
  assumes "entries_rel r r'"
  shows "reordered (VMap r) (VMap r') \<and> keys_distinct (VMap r)"
proof
  from assms show "reordered (VMap r) (VMap r')"
    by (intro reordered.smap) (simp_all add: entries_rel_def)
  from assms have d: "distinct (map fst r)"
    and kd: "\<forall>k \<in> set (map fst r). keys_distinct (index r k)"
    by (simp_all add: entries_rel_def)
  have "keys_distinct v" if "(k, v) \<in> set r" for k v
  proof -
    from that have "k \<in> set (map fst r)" by force
    with kd have "keys_distinct (index r k)" by blast
    with index_present [OF d that] show ?thesis by simp
  qed
  with d show "keys_distinct (VMap r)" by auto
qed

lemma normalize_keys_rel:
  "\<forall>k \<in> set ks. norm_rel (index m k) (index m' k) \<Longrightarrow> entries_rel newMap newMap' \<Longrightarrow>
   \<exists>r r'. normalize_keys m ks newMap = Inr (VMap r) \<and> normalize_keys m' ks newMap' = Inr (VMap r')
      \<and> entries_rel r r'"
proof (induction ks arbitrary: newMap newMap')
  case Nil
  then show ?case by simp
next
  case (Cons k ks)
  from Cons.prems(1) obtain n n' where n: "normalizeV (index m k) = Inr n"
    "normalizeV (index m' k) = Inr n'" "reordered n n'" "keys_distinct n"
    unfolding norm_rel_def by auto
  have "entries_rel (mapassign newMap k n) (mapassign newMap' k n')"
    using Cons.prems(2) n(3,4) by (rule entries_rel_mapassign)
  moreover have "\<forall>k \<in> set ks. norm_rel (index m k) (index m' k)"
    using Cons.prems(1) by simp
  ultimately show ?case
    using Cons.IH [of "mapassign newMap k n" "mapassign newMap' k n'"] n(1,2) by simp
qed

lemma normalize_items_rel:
  "list_all2 norm_rel xs ys \<Longrightarrow> list_all2 reordered out out' \<Longrightarrow> \<forall>x \<in> set out. keys_distinct x \<Longrightarrow>
   \<exists>r r'. normalize_items xs out = Inr (VSlice r) \<and> normalize_items ys out' = Inr (VSlice r')
      \<and> list_all2 reordered r r' \<and> (\<forall>x \<in> set r. keys_distinct x)"
proof (induction xs ys arbitrary: out out' rule: list_all2_induct)
  case Nil
  then show ?case by simp
next
  case (Cons x xs y ys)
  from Cons.hyps(1) obtain n n' where n: "normalizeV x = Inr n"
    "normalizeV y = Inr n'" "reordered n n'" "keys_distinct n"
    unfolding norm_rel_def by auto
  have "list_all2 reordered (out @ [n]) (out' @ [n'])"
    using Cons.prems(1) n(3) by (simp add: list_all2_appendI)
  moreover have "\<forall>x \<in> set (out @ [n]). keys_distinct x"
    using Cons.prems(2) n(4) by simp
  ultimately show ?case
    using Cons.IH [of "out @ [n]" "out' @ [n']"] n(1,2) by simp
qed

lemma map_fst_imap_rebuild:
  "map fst nm' = map fst nm \<Longrightarrow>
   map fst (imap_rebuild m' ks nm') = map fst (imap_rebuild m ks nm)"
  by (induction ks arbitrary: nm nm') (simp_all add: map_fst_mapassign)

lemma index_imap_rebuild:
  "index (imap_rebuild m ks nm) j = (if j \<in> set ks then index m (KString j) else index nm j)"
  by (induction ks arbitrary: nm) (auto simp: index_mapassign)

lemma distinct_imap_rebuild:
  "distinct (map fst nm) \<Longrightarrow> distinct (map fst (imap_rebuild m ks nm))"
  by (induction ks arbitrary: nm) (simp_all add: distinct_mapassign)

lemma normalizeV_reordered:
  "reordered v v' \<Longrightarrow> keys_distinct v \<Longrightarrow> norm_rel v v'"
proof (induction rule: reordered.induct)
  case (scalar v)
  then show ?case by (simp add: norm_rel_scalar)
next
  case (slice xs ys)
  have "list_all2 norm_rel xs ys"
    using slice.IH slice.prems by (auto elim!: list.rel_mono_strong)
  from normalize_items_rel [OF this, of "[]" "[]"]
  obtain r r' where "normalize_items xs [] = Inr (VSlice r)" "normalize_items ys [] = Inr (VSlice r')"
    "list_all2 reordered r r'" "\<forall>x \<in> set r. keys_distinct x"
    by auto
  then show ?case
    unfolding norm_rel_def by (auto intro: reordered.slice)
next
  case (smap m' m)
  from smap.prems have d: "distinct (map fst m)" and kd: "\<forall>(k, v) \<in> set m. keys_distinct v"
    by simp_all
  have ks: "sort (map fst m') = sort (map fst m)"
    using smap.hyps(1) by (rule sort_keys_eq)
  have "\<forall>k \<in> set (sort (map fst m)). norm_rel (index m k) (index m' k)"
    using smap.IH keys_distinct_index [OF d kd] by simp
  from normalize_keys_rel [OF this entries_rel_Nil]
  obtain r r' where "normalize_keys m (sort (map fst m)) [] = Inr (VMap r)"
    "normalize_keys m' (sort (map fst m)) [] = Inr (VMap r')" "entries_rel r r'"
    by blast
  then show ?case
    unfolding norm_rel_def using entries_rel_VMap [of r r'] ks by simp
next
  case (imap m' m)
  from imap.prems have d: "distinct (map fst m)" and kd: "\<forall>(k, v) \<in> set m. keys_distinct v"
    by simp_all
  define ks where "ks = sort (map (Sprint_key \<circ> fst) m)"
  have "mset (map (Sprint_key \<circ> fst) m') = mset (map (Sprint_key \<circ> fst) m)"
    using imap.hyps(1) by (metis mset_map map_map)
  then have ks': "sort (map (Sprint_key \<circ> fst) m') = ks"
    unfolding ks_def by (rule sort_keys_eq)
  define r0 where "r0 = imap_rebuild m ks []"
  define r0' where "r0' = imap_rebuild m' ks []"
  have fst_eq: "map fst r0' = map fst r0"
    unfolding r0_def r0'_def by (rule map_fst_imap_rebuild) simp
  have set_eq: "set (map fst m') = set (map fst m)"
    using imap.hyps(1) by (rule mset_eq_setD)
  have "norm_rel (index r0 k) (index r0' k)" for k
  proof (cases "k \<in> set ks \<and> KString k \<in> set (map fst m)")
    case True
    then have "norm_rel (index m (KString k)) (index m' (KString k))"
      using imap.IH keys_distinct_index [OF d kd] by blast
    with True show ?thesis
      by (simp add: r0_def r0'_def index_imap_rebuild)
  next
    case False
    then have "index r0 k = VNil" "index r0' k = VNil"
      using set_eq
      by (auto simp: r0_def r0'_def index_imap_rebuild index_absent simp del: set_map)
    then show ?thesis by (simp add: norm_rel_scalar)
  qed
  then have "\<forall>k \<in> set (sort (map fst r0)). norm_rel (index r0 k) (index r0' k)"
    by simp
  from normalize_keys_rel [OF this entries_rel_Nil]
  obtain r r' where "normalize_keys r0 (sort (map fst r0)) [] = Inr (VMap r)"
    "normalize_keys r0' (sort (map fst r0)) [] = Inr (VMap r')" "entries_rel r r'"
    by blast
  then show ?case
    unfolding norm_rel_def using entries_rel_VMap [of r r'] fst_eq ks'
    by (simp add: r0_def [symmetric] r0'_def [symmetric] ks_def [symmetric])
next
  case (struct fs' fs)
  have "list_all2 reordered (map snd fs) (map snd fs')"
    using struct.IH by (auto elim!: list.rel_mono_strong)
  with struct.hyps(1) have "reordered (VStruct fs) (VStruct fs')"
    by (rule reordered.struct)
  with struct.prems show ?case
    unfolding norm_rel_def by simp
qed


subsection \<open>Canonical text\<close>

text \<open>
  C1. Determinism under reordering: for every parameter tree \<open>v\<close> (a Go value, whose maps
  have pairwise distinct keys) and every tree \<open>v'\<close> that holds the same key/value pairs
  with the entries of its nested mappings in another order, \<^verbatim>\<open>normalizeAndStringify\<close>
  returns the same result: the same string byte for byte, or the same error.
\<close>

theorem canonical_text_reordering:
  "keys_distinct v \<Longrightarrow> reordered v v' \<Longrightarrow>
   normalizeAndStringify L v = normalizeAndStringify L v'"
proof -
  assume kd: "keys_distinct v" and r: "reordered v v'"
  from normalizeV_reordered [OF r kd] obtain n n' where
    n: "normalizeV v = Inr n" "normalizeV v' = Inr n'" "reordered n n'" "keys_distinct n"
    unfolding norm_rel_def by auto
  from json_encode_reordered [OF n(3,4)] have "json_Marshal L n = json_Marshal L n'"
    by (simp add: json_Marshal_def)
  with n(1,2) show ?thesis
    by (simp add: normalizeAndStringify_def)
qed

theorem canonical_text_reordering_witness:
  \<open>keys_distinct
     (VMap [(''symbol'', VString ''BTCUSDT''), (''side'', VString ''BUY''),
            (''meta'', VMap [(''b'', VInt 2), (''a'', VSlice [VNil, VBool True])])]) \<and>
   reordered
     (VMap [(''symbol'', VString ''BTCUSDT''), (''side'', VString ''BUY''),
            (''meta'', VMap [(''b'', VInt 2), (''a'', VSlice [VNil, VBool True])])])
     (VMap [(''meta'', VMap [(''a'', VSlice [VNil, VBool True]), (''b'', VInt 2)]),
            (''side'', VString ''BUY''), (''symbol'', VString ''BTCUSDT'')]) \<and>
   (\<forall>L. normalizeAndStringify L
     (VMap [(''symbol'', VString ''BTCUSDT''), (''side'', VString ''BUY''),
            (''meta'', VMap [(''b'', VInt 2), (''a'', VSlice [VNil, VBool True])])])
    = normalizeAndStringify L
     (VMap [(''meta'', VMap [(''a'', VSlice [VNil, VBool True]), (''b'', VInt 2)]),
            (''side'', VString ''BUY''), (''symbol'', VString ''BTCUSDT'')])) \<and>
   (\<forall>L. normalizeAndStringify L
     (VMap [(''meta'', VMap [(''a'', VSlice [VNil, VBool True]), (''b'', VInt 2)]),
            (''side'', VString ''BUY''), (''symbol'', VString ''BTCUSDT'')])
    = Inr ''{"meta":{"a":[null,true],"b":2},"side":"BUY","symbol":"BTCUSDT"}'')\<close>
proof -
  let ?inner = "VMap [(''b'', VInt 2), (''a'', VSlice [VNil, VBool True])]"
  let ?inner' = "VMap [(''a'', VSlice [VNil, VBool True]), (''b'', VInt 2)]"
  let ?v = "VMap [(''symbol'', VString ''BTCUSDT''), (''side'', VString ''BUY''), (''meta'', ?inner)]"
  let ?v' = "VMap [(''meta'', ?inner'), (''side'', VString ''BUY''), (''symbol'', VString ''BTCUSDT'')]"
  have kd: "keys_distinct ?v" by simp
  have sl: "reordered (VSlice [VNil, VBool True]) (VSlice [VNil, VBool True])"
    by (intro reordered.slice) (simp add: reordered.scalar)
  have inner: "reordered ?inner ?inner'"
    by (intro reordered.smap) (simp_all add: index_def sl reordered.scalar)
  have r: "reordered ?v ?v'"
    by (intro reordered.smap) (simp_all add: index_def inner reordered.scalar)
  have e: \<open>normalizeAndStringify L ?v' =
      Inr ''{"meta":{"a":[null,true],"b":2},"side":"BUY","symbol":"BTCUSDT"}''\<close> for L
    by code_simp
  from kd r canonical_text_reordering [OF kd r] e show ?thesis
    by blast
qed

text \<open>
  C3. The mapping \<^verbatim>\<open>{"symbol":"BTCUSDT","side":"BUY","quantity":"1.5"}\<close> canonicalizes to
  exactly \<^verbatim>\<open>{"quantity":"1.5","side":"BUY","symbol":"BTCUSDT"}\<close>: the keys come out in
  lexicographic order.
\<close>

theorem canonical_text_example:
  \<open>normalizeAndStringify L
     (VMap [(''symbol'', VString ''BTCUSDT''), (''side'', VString ''BUY''),
            (''quantity'', VString ''1.5'')])
   = Inr ''{"quantity":"1.5","side":"BUY","symbol":"BTCUSDT"}''\<close>
  by code_simp

subsection \<open>The steps of sign\<close>

lemma sign_Inr:
  assumes "normalizeAndStringify L (VMap (fresh_params params0 nano)) = Inr trimmed"
    and "NewType L ''string'' = Inr tString"
    and "NewType L ''address'' = Inr tAddress"
    and "NewType L ''uint256'' = Inr tUint256"
    and "Pack L [tString, tAddress, tAddress, tUint256]
           [ArgString trimmed, ArgAddress (HexToAddress L (User c)),
            ArgAddress (HexToAddress L (Signer c)), ArgBigInt nonce] = Inr packed"
  shows "sign L c params0 nonce nano =
    (case HexToECDSA L (TrimPrefix (PriKeyHex c) ''0x'') of
       Inl err \<Rightarrow> (fresh_params params0 nano, Some (wrapError ''invalid private key: '' err))
     | Inr privKey \<Rightarrow>
        (case Sign L (message_digest L packed) privKey of
           Inl err \<Rightarrow> (fresh_params params0 nano, Some (wrapError ''sign error: '' err))
         | Inr sig \<Rightarrow>
            if length sig \<noteq> 65 then
              (fresh_params params0 nano,
               Some (errorString (''unexpected signature length: '' @ FormatInt (int (length sig)))))
            else
              (mapassign (mapassign (mapassign (mapassign (fresh_params params0 nano)
                  ''user'' (VString (User c)))
                  ''signer'' (VString (Signer c)))
                  ''signature'' (VString (''0x'' @ EncodeToString (sig[64 := sig ! 64 + 27]))))
                  ''nonce'' (VInt nonce),
               None)))"
  using assms
  by (simp add: sign_def fresh_params_def message_digest_def Let_def split: sum.splits)

lemma sign_success_D:
  assumes "sign L c params0 nonce nano = (params', None)"
  shows "\<exists>trimmed tString tAddress tUint256 packed privKey sig.
     normalizeAndStringify L (VMap (fresh_params params0 nano)) = Inr trimmed \<and>
     NewType L ''string'' = Inr tString \<and>
     NewType L ''address'' = Inr tAddress \<and>
     NewType L ''uint256'' = Inr tUint256 \<and>
     Pack L [tString, tAddress, tAddress, tUint256]
       [ArgString trimmed, ArgAddress (HexToAddress L (User c)),
        ArgAddress (HexToAddress L (Signer c)), ArgBigInt nonce] = Inr packed \<and>
     HexToECDSA L (TrimPrefix (PriKeyHex c) ''0x'') = Inr privKey \<and>
     Sign L (message_digest L packed) privKey = Inr sig \<and>
     length sig = 65 \<and>
     params' =
       mapassign (mapassign (mapassign (mapassign (fresh_params params0 nano)
         ''user'' (VString (User c)))
         ''signer'' (VString (Signer c)))
         ''signature'' (VString (''0x'' @ EncodeToString (sig[64 := sig ! 64 + 27]))))
         ''nonce'' (VInt nonce)"
  using assms
  by (simp add: sign_def fresh_params_def message_digest_def Let_def split: sum.splits if_splits)


lemma length_EncodeToString: "length (EncodeToString bs) = 2 * length bs"
  by (induction bs) (simp_all add: EncodeToString_def)

lemma list_update_last: "length xs = Suc n \<Longrightarrow> xs[n := x] = take n xs @ [x]"
  by (induction xs arbitrary: n) (auto split: nat.splits)

lemma string_bytes_prefix_32:
  "string_bytes (message_prefix @ FormatInt 32) =
     [0x19, 0x45, 0x74, 0x68, 0x65, 0x72, 0x65, 0x75, 0x6D, 0x20, 0x53, 0x69, 0x67, 0x6E, 0x65,
      0x64, 0x20, 0x4D, 0x65, 0x73, 0x73, 0x61, 0x67, 0x65, 0x3A, 0x0A, 0x33, 0x32]"
  by (simp add: string_bytes_def message_prefix_def FormatInt_def int_digits.simps digit_char_def)

text \<open>
  C2. When \<^verbatim>\<open>sign\<close> succeeds, the signature it stores was made as follows: the tuple
  (canonical text, account address, signer address, nonce) was ABI-packed and hashed with
  Keccak-256; the message signed is the Keccak-256 hash of the bytes of
  \<^verbatim>\<open>"\x19Ethereum Signed Message:\n"\<close>, then the decimal digits of the length of that first
  hash (the two digits \<^verbatim>\<open>32\<close> when the hash has 32 bytes), then the raw bytes of the hash;
  the ECDSA library signed that digest with the key parsed from \<^verbatim>\<open>PriKeyHex\<close> and returned
  65 bytes; 27 was added to the last byte (a recovery byte of 0 or 1 becomes 27 or 28); and
  the field \<^verbatim>\<open>signature\<close> is \<^verbatim>\<open>0x\<close> followed by the 130 hex digits of the 65 bytes.
\<close>

theorem sign_signature:
  assumes "sign L c params0 nonce nano = (params', None)"
  shows "\<exists>trimmed tString tAddress tUint256 packed privKey sig.
     normalizeAndStringify L (VMap (fresh_params params0 nano)) = Inr trimmed \<and>
     NewType L ''string'' = Inr tString \<and>
     NewType L ''address'' = Inr tAddress \<and>
     NewType L ''uint256'' = Inr tUint256 \<and>
     Pack L [tString, tAddress, tAddress, tUint256]
       [ArgString trimmed, ArgAddress (HexToAddress L (User c)),
        ArgAddress (HexToAddress L (Signer c)), ArgBigInt nonce] = Inr packed \<and>
     HexToECDSA L (TrimPrefix (PriKeyHex c) ''0x'') = Inr privKey \<and>
     Sign L
       (Keccak256 L
          (string_bytes (CHR 0x19 # ''Ethereum Signed Message:'' @ [CHR 0x0A]
             @ FormatInt (int (length (Keccak256 L packed))))
           @ Keccak256 L packed))
       privKey = Inr sig \<and>
     (if length (Keccak256 L packed) = 32
      then string_bytes (CHR 0x19 # ''Ethereum Signed Message:'' @ [CHR 0x0A]
             @ FormatInt (int (length (Keccak256 L packed))))
           = [0x19, 0x45, 0x74, 0x68, 0x65, 0x72, 0x65, 0x75, 0x6D, 0x20, 0x53, 0x69, 0x67, 0x6E,
              0x65, 0x64, 0x20, 0x4D, 0x65, 0x73, 0x73, 0x61, 0x67, 0x65, 0x3A, 0x0A, 0x33, 0x32]
      else True) \<and>
     length sig = 65 \<and>
     index params' ''signature'' = VString (''0x'' @ EncodeToString (take 64 sig @ [sig ! 64 + 27])) \<and>
     length (EncodeToString (take 64 sig @ [sig ! 64 + 27])) = 130 \<and>
     (if sig ! 64 = 0 \<or> sig ! 64 = 1 then sig ! 64 + 27 = 27 \<or> sig ! 64 + 27 = 28 else True)"
proof -
  from sign_success_D [OF assms] obtain trimmed tString tAddress tUint256 packed privKey sig where
    h: "normalizeAndStringify L (VMap (fresh_params params0 nano)) = Inr trimmed"
      "NewType L ''string'' = Inr tString"
      "NewType L ''address'' = Inr tAddress"
      "NewType L ''uint256'' = Inr tUint256"
      "Pack L [tString, tAddress, tAddress, tUint256]
         [ArgString trimmed, ArgAddress (HexToAddress L (User c)),
          ArgAddress (HexToAddress L (Signer c)), ArgBigInt nonce] = Inr packed"
      "HexToECDSA L (TrimPrefix (PriKeyHex c) ''0x'') = Inr privKey"
      "Sign L (message_digest L packed) privKey = Inr sig"
      "length sig = 65"
    and p: "params' =
       mapassign (mapassign (mapassign (mapassign (fresh_params params0 nano)
         ''user'' (VString (User c)))
         ''signer'' (VString (Signer c)))
         ''signature'' (VString (''0x'' @ EncodeToString (sig[64 := sig ! 64 + 27]))))
         ''nonce'' (VInt nonce)"
    by blast
  have upd: "sig[64 := sig ! 64 + 27] = take 64 sig @ [sig ! 64 + 27]"
    using h(8) by (intro list_update_last) simp
  have sg: "index params' ''signature'' =
      VString (''0x'' @ EncodeToString (take 64 sig @ [sig ! 64 + 27]))"
    by (simp add: p index_mapassign upd)
  have len: "length (EncodeToString (take 64 sig @ [sig ! 64 + 27])) = 130"
    using h(8) by (simp add: length_EncodeToString)
  have pre: "(if length (Keccak256 L packed) = 32
      then string_bytes (CHR 0x19 # ''Ethereum Signed Message:'' @ [CHR 0x0A]
             @ FormatInt (int (length (Keccak256 L packed))))
           = [0x19, 0x45, 0x74, 0x68, 0x65, 0x72, 0x65, 0x75, 0x6D, 0x20, 0x53, 0x69, 0x67, 0x6E,
              0x65, 0x64, 0x20, 0x4D, 0x65, 0x73, 0x73, 0x61, 0x67, 0x65, 0x3A, 0x0A, 0x33, 0x32]
      else True)"
    using string_bytes_prefix_32 by (simp add: message_prefix_def)
  have dg: "Sign L
       (Keccak256 L
          (string_bytes (CHR 0x19 # ''Ethereum Signed Message:'' @ [CHR 0x0A]
             @ FormatInt (int (length (Keccak256 L packed))))
           @ Keccak256 L packed))
       privKey = Inr sig"
    using h(7) by (simp add: message_digest_def message_prefix_def)
  have v: "(if sig ! 64 = 0 \<or> sig ! 64 = 1 then sig ! 64 + 27 = 27 \<or> sig ! 64 + 27 = 28 else True)"
    by auto
  from h(1-6) dg pre h(8) sg len v show ?thesis
    by blast
qed



lemma order_sign_run:
  "sign test_lib test_client order_params 1700000000000000 1759212310710123456 =
     ([(''symbol'', VString ''BTCUSDT''), (''side'', VString ''BUY''),
       (''quantity'', VString ''1.5''), (''recvWindow'', VString ''50000''),
       (''timestamp'', VString ''1759212310710''),
       (''user'', VString ''0x63DD5aCC6b1aa0f563956C0e534DD30B6dcF7C4e''),
       (''signer'', VString ''0x21cF8Ae13Bb72632562c6Fff438652Ba1a151bb0''),
       (''signature'',
        VString
         ''0x000000000000000000000000000000000000000000000000000000000000003c00000000000000000000000000000000000000000000000000000000000000011c''),
       (''nonce'', VInt 1700000000000000)],
      None)"
  by code_simp

theorem sign_signature_witness:
  "sign test_lib test_client order_params 1700000000000000 1759212310710123456 =
     ([(''symbol'', VString ''BTCUSDT''), (''side'', VString ''BUY''),
       (''quantity'', VString ''1.5''), (''recvWindow'', VString ''50000''),
       (''timestamp'', VString ''1759212310710''),
       (''user'', VString ''0x63DD5aCC6b1aa0f563956C0e534DD30B6dcF7C4e''),
       (''signer'', VString ''0x21cF8Ae13Bb72632562c6Fff438652Ba1a151bb0''),
       (''signature'',
        VString
         ''0x000000000000000000000000000000000000000000000000000000000000003c00000000000000000000000000000000000000000000000000000000000000011c''),
       (''nonce'', VInt 1700000000000000)],
      None) \<and>
   (\<exists>sig. length sig = 65 \<and>
      index
        [(''symbol'', VString ''BTCUSDT''), (''side'', VString ''BUY''),
         (''quantity'', VString ''1.5''), (''recvWindow'', VString ''50000''),
         (''timestamp'', VString ''1759212310710''),
         (''user'', VString ''0x63DD5aCC6b1aa0f563956C0e534DD30B6dcF7C4e''),
         (''signer'', VString ''0x21cF8Ae13Bb72632562c6Fff438652Ba1a151bb0''),
         (''signature'',
          VString
           ''0x000000000000000000000000000000000000000000000000000000000000003c00000000000000000000000000000000000000000000000000000000000000011c''),
         (''nonce'', VInt 1700000000000000)] ''signature''
      = VString (''0x'' @ EncodeToString (take 64 sig @ [sig ! 64 + 27])))"
  using sign_signature [OF order_sign_run] order_sign_run by blast

subsection \<open>Order of canonicalization and insertion\<close>

lemma index_fresh_params:
  "index (fresh_params params0 nano) k =
     (if k = ''timestamp'' then VString (FormatInt (nano sdiv 1000000))
      else if k = ''recvWindow'' then VString ''50000''
      else index params0 k)"
  by (simp add: fresh_params_def index_mapassign)

text \<open>
  C8. When \<^verbatim>\<open>sign\<close> succeeds, the text that was canonicalized is the text of the
  parameters with \<^verbatim>\<open>recvWindow\<close> (the fixed string 50000) and \<^verbatim>\<open>timestamp\<close> assigned and
  every other key as the caller gave it: the freshness fields are in the canonical text,
  and \<^verbatim>\<open>user\<close>, \<^verbatim>\<open>signer\<close>, \<^verbatim>\<open>signature\<close> and \<^verbatim>\<open>nonce\<close> have not been assigned yet. The
  account and signer addresses and the nonce enter what is signed as the other three
  slots of the packed tuple. The map returned is the canonicalized map with \<^verbatim>\<open>user\<close>,
  \<^verbatim>\<open>signer\<close>, \<^verbatim>\<open>signature\<close> and \<^verbatim>\<open>nonce\<close> assigned afterwards, the signature being
  computed from the digest of the packed tuple, so it is not part of the payload it signs.
\<close>

theorem canonicalization_between_insertions:
  assumes "sign L c params0 nonce nano = (params', None)"
  shows "\<exists>trimmed tString tAddress tUint256 packed privKey sig.
     normalizeAndStringify L (VMap (fresh_params params0 nano)) = Inr trimmed \<and>
     index (fresh_params params0 nano) ''recvWindow'' = VString ''50000'' \<and>
     index (fresh_params params0 nano) ''timestamp'' = VString (FormatInt (nano sdiv 1000000)) \<and>
     (\<forall>k. if k = ''recvWindow'' \<or> k = ''timestamp'' then True
          else index (fresh_params params0 nano) k = index params0 k) \<and>
     NewType L ''string'' = Inr tString \<and>
     NewType L ''address'' = Inr tAddress \<and>
     NewType L ''uint256'' = Inr tUint256 \<and>
     Pack L [tString, tAddress, tAddress, tUint256]
       [ArgString trimmed, ArgAddress (HexToAddress L (User c)),
        ArgAddress (HexToAddress L (Signer c)), ArgBigInt nonce] = Inr packed \<and>
     HexToECDSA L (TrimPrefix (PriKeyHex c) ''0x'') = Inr privKey \<and>
     Sign L (message_digest L packed) privKey = Inr sig \<and>
     params' =
       mapassign (mapassign (mapassign (mapassign (fresh_params params0 nano)
         ''user'' (VString (User c)))
         ''signer'' (VString (Signer c)))
         ''signature'' (VString (''0x'' @ EncodeToString (sig[64 := sig ! 64 + 27]))))
         ''nonce'' (VInt nonce)"
proof -
  from sign_success_D [OF assms] obtain trimmed tString tAddress tUint256 packed privKey sig where
    h: "normalizeAndStringify L (VMap (fresh_params params0 nano)) = Inr trimmed"
      "NewType L ''string'' = Inr tString"
      "NewType L ''address'' = Inr tAddress"
      "NewType L ''uint256'' = Inr tUint256"
      "Pack L [tString, tAddress, tAddress, tUint256]
         [ArgString trimmed, ArgAddress (HexToAddress L (User c)),
          ArgAddress (HexToAddress L (Signer c)), ArgBigInt nonce] = Inr packed"
      "HexToECDSA L (TrimPrefix (PriKeyHex c) ''0x'') = Inr privKey"
      "Sign L (message_digest L packed) privKey = Inr sig"
      "params' =
       mapassign (mapassign (mapassign (mapassign (fresh_params params0 nano)
         ''user'' (VString (User c)))
         ''signer'' (VString (Signer c)))
         ''signature'' (VString (''0x'' @ EncodeToString (sig[64 := sig ! 64 + 27]))))
         ''nonce'' (VInt nonce)"
    by blast
  have f1: "index (fresh_params params0 nano) ''recvWindow'' = VString ''50000''"
    and f2: "index (fresh_params params0 nano) ''timestamp'' = VString (FormatInt (nano sdiv 1000000))"
    and f3: "\<forall>k. if k = ''recvWindow'' \<or> k = ''timestamp'' then True
          else index (fresh_params params0 nano) k = index params0 k"
    by (simp_all add: index_fresh_params)
  from h(1) f1 f2 f3 h(2-8) show ?thesis
    by blast
qed

theorem canonicalization_between_insertions_witness:
  "sign test_lib test_client order_params 1700000000000000 1759212310710123456 =
     ([(''symbol'', VString ''BTCUSDT''), (''side'', VString ''BUY''),
       (''quantity'', VString ''1.5''), (''recvWindow'', VString ''50000''),
       (''timestamp'', VString ''1759212310710''),
       (''user'', VString ''0x63DD5aCC6b1aa0f563956C0e534DD30B6dcF7C4e''),
       (''signer'', VString ''0x21cF8Ae13Bb72632562c6Fff438652Ba1a151bb0''),
       (''signature'',
        VString
         ''0x000000000000000000000000000000000000000000000000000000000000003c00000000000000000000000000000000000000000000000000000000000000011c''),
       (''nonce'', VInt 1700000000000000)],
      None) \<and>
   (\<exists>trimmed packed.
      normalizeAndStringify test_lib
        (VMap (fresh_params order_params 1759212310710123456)) = Inr trimmed \<and>
      index (fresh_params order_params 1759212310710123456) ''signature'' = VNil \<and>
      Pack test_lib [StringTy, AddressTy, AddressTy, UintTy 256]
        [ArgString trimmed, ArgAddress (HexToAddress test_lib (User test_client)),
         ArgAddress (HexToAddress test_lib (Signer test_client)), ArgBigInt 1700000000000000] = Inr packed)"
proof -
  have t: "NewType test_lib ''string'' = Inr StringTy" "NewType test_lib ''address'' = Inr AddressTy"
    "NewType test_lib ''uint256'' = Inr (UintTy 256)"
    by (simp_all add: test_lib_def abi_NewType_def)
  have s: "index order_params ''signature'' = VNil"
    by (simp add: order_params_def index_def)
  from canonicalization_between_insertions [OF order_sign_run] t s order_sign_run
  show ?thesis
    by (simp add: index_fresh_params) blast
qed

subsection \<open>Failures of the signing step\<close>

text \<open>
  C9. Once \<^verbatim>\<open>sign\<close> has the packed tuple, a private key that \<^verbatim>\<open>crypto.HexToECDSA\<close> rejects
  makes it fail with the error \<^verbatim>\<open>invalid private key\<close> wrapping the library's error (the
  spec's SigningError, as is the wrapped error of \<^verbatim>\<open>crypto.Sign\<close>); a signature that is not
  exactly 65 bytes long makes it fail with \<^verbatim>\<open>unexpected signature length\<close> (the spec's
  InvariantViolation). In both cases the map holds the freshness fields only: the byte at
  index 64 is changed, and the signature stored, only when the length is 65.
\<close>

theorem sign_key_and_length_errors:
  assumes "normalizeAndStringify L (VMap (fresh_params params0 nano)) = Inr trimmed"
    and "NewType L ''string'' = Inr tString"
    and "NewType L ''address'' = Inr tAddress"
    and "NewType L ''uint256'' = Inr tUint256"
    and "Pack L [tString, tAddress, tAddress, tUint256]
           [ArgString trimmed, ArgAddress (HexToAddress L (User c)),
            ArgAddress (HexToAddress L (Signer c)), ArgBigInt nonce] = Inr packed"
  shows "(case HexToECDSA L (TrimPrefix (PriKeyHex c) ''0x'') of
            Inl err \<Rightarrow>
              sign L c params0 nonce nano =
                (fresh_params params0 nano, Some (wrapError ''invalid private key: '' err))
          | Inr privKey \<Rightarrow>
              (case Sign L (message_digest L packed) privKey of
                 Inl err \<Rightarrow>
                   sign L c params0 nonce nano =
                     (fresh_params params0 nano, Some (wrapError ''sign error: '' err))
               | Inr sig \<Rightarrow>
                  if length sig \<noteq> 65 then
                    sign L c params0 nonce nano =
                      (fresh_params params0 nano,
                       Some (errorString
                              (''unexpected signature length: '' @ FormatInt (int (length sig)))))
                  else
                    snd (sign L c params0 nonce nano) = None \<and>
                    index (fst (sign L c params0 nonce nano)) ''signature'' =
                      VString (''0x'' @ EncodeToString (sig[64 := sig ! 64 + 27]))))"
  by (simp add: sign_Inr [OF assms] index_mapassign split: sum.splits)

theorem sign_key_and_length_errors_witness:
  \<open>normalizeAndStringify test_lib (VMap (fresh_params order_params 1759212310710123456)) =
     Inr ''{"quantity":"1.5","recvWindow":"50000","side":"BUY","symbol":"BTCUSDT","timestamp":"1759212310710"}'' \<and>
   HexToECDSA test_lib (TrimPrefix ''0xzz'' ''0x'') = Inl (LibError ''invalid hex data for private key'') \<and>
   sign test_lib (test_client\<lparr>PriKeyHex := ''0xzz''\<rparr>) order_params 1700000000000000 1759212310710123456 =
     (fresh_params order_params 1759212310710123456,
      Some (wrapError ''invalid private key: '' (LibError ''invalid hex data for private key''))) \<and>
   sign compact_sig_lib test_client order_params 1700000000000000 1759212310710123456 =
     (fresh_params order_params 1759212310710123456,
      Some (errorString ''unexpected signature length: 64''))\<close>
proof -
  let ?text = \<open>''{"quantity":"1.5","recvWindow":"50000","side":"BUY","symbol":"BTCUSDT","timestamp":"1759212310710"}''\<close>
  let ?args = "[ArgString ?text, ArgAddress (common_HexToAddress (User test_client)),
            ArgAddress (common_HexToAddress (Signer test_client)), ArgBigInt 1700000000000000]"
  have canon: "normalizeAndStringify test_lib (VMap (fresh_params order_params 1759212310710123456)) =
     Inr ?text"
    by code_simp
  have canon': "normalizeAndStringify compact_sig_lib (VMap (fresh_params order_params 1759212310710123456)) =
     Inr ?text"
    by code_simp
  have t: "NewType test_lib ''string'' = Inr StringTy" "NewType test_lib ''address'' = Inr AddressTy"
    "NewType test_lib ''uint256'' = Inr (UintTy 256)"
    by (simp_all add: test_lib_def abi_NewType_def)
  have t': "NewType compact_sig_lib ''string'' = Inr StringTy"
    "NewType compact_sig_lib ''address'' = Inr AddressTy"
    "NewType compact_sig_lib ''uint256'' = Inr (UintTy 256)"
    by (simp_all add: compact_sig_lib_def test_lib_def abi_NewType_def)
  have "\<not> isl (abi_Pack [StringTy, AddressTy, AddressTy, UintTy 256] ?args)"
    by code_simp
  then obtain packed where pk: "abi_Pack [StringTy, AddressTy, AddressTy, UintTy 256] ?args = Inr packed"
    by (cases "abi_Pack [StringTy, AddressTy, AddressTy, UintTy 256] ?args") auto
  have pk1: "Pack test_lib [StringTy, AddressTy, AddressTy, UintTy 256]
      [ArgString ?text, ArgAddress (HexToAddress test_lib (User (test_client\<lparr>PriKeyHex := ''0xzz''\<rparr>))),
       ArgAddress (HexToAddress test_lib (Signer (test_client\<lparr>PriKeyHex := ''0xzz''\<rparr>))),
       ArgBigInt 1700000000000000] = Inr packed"
    using pk by (simp add: test_lib_def)
  have pk2: "Pack compact_sig_lib [StringTy, AddressTy, AddressTy, UintTy 256]
      [ArgString ?text, ArgAddress (HexToAddress compact_sig_lib (User test_client)),
       ArgAddress (HexToAddress compact_sig_lib (Signer test_client)),
       ArgBigInt 1700000000000000] = Inr packed"
    using pk by (simp add: compact_sig_lib_def test_lib_def)
  have key: "HexToECDSA test_lib (TrimPrefix ''0xzz'' ''0x'') = Inl (LibError ''invalid hex data for private key'')"
    by code_simp
  have key2: "\<not> isl (HexToECDSA compact_sig_lib (TrimPrefix (PriKeyHex test_client) ''0x''))"
    by code_simp
  have sg: "Sign compact_sig_lib d k = Inr (d @ d)" for d k
    by (simp add: compact_sig_lib_def)
  have hl: "length (message_digest compact_sig_lib bs) = 32" for bs
    by (simp add: message_digest_def compact_sig_lib_def test_lib_def placeholder_Keccak256_def)
  have r1: "sign test_lib (test_client\<lparr>PriKeyHex := ''0xzz''\<rparr>) order_params 1700000000000000 1759212310710123456 =
     (fresh_params order_params 1759212310710123456,
      Some (wrapError ''invalid private key: '' (LibError ''invalid hex data for private key'')))"
    using sign_key_and_length_errors [OF canon t pk1] key by simp
  have r2: "sign compact_sig_lib test_client order_params 1700000000000000 1759212310710123456 =
     (fresh_params order_params 1759212310710123456,
      Some (errorString ''unexpected signature length: 64''))"
    using sign_key_and_length_errors [OF canon' t' pk2] key2
    by (simp add: sg hl FormatInt_def int_digits.simps digit_char_def split: sum.splits)
  from canon key r1 r2 show ?thesis by blast
qed

subsection \<open>The nonce\<close>

text \<open>\<^verbatim>\<open>uint64(micro)\<close> is one-to-one on the \<^verbatim>\<open>int64\<close> values.\<close>

lemma genNonce_inj:
  assumes "int64 a" "int64 b" "genNonce a = genNonce b"
  shows "a = b"
proof -
  from assms(3) have "(a - b) mod 2 ^ 64 = 0"
    unfolding genNonce_def by (metis mod_diff_cong cancel_comm_monoid_add_class.diff_cancel mod_0)
  then obtain q where q: "a - b = 2 ^ 64 * q"
    by (auto simp: mod_eq_0_iff_dvd)
  from assms(1,2) have "- (2 ^ 64) < a - b" "a - b < 2 ^ 64"
    by (simp_all add: int64_def)
  with q have "q = 0" by auto
  with q show ?thesis by simp
qed

text \<open>
  C5, as amended. \<^verbatim>\<open>genNonce\<close> has no guard and no counter: the nonces of a sequence of
  calls are pairwise distinct exactly when the microsecond readings of the clock at those
  calls are pairwise distinct. Two calls that read the same microsecond get the same nonce.
\<close>

theorem genNonce_distinct_iff:
  assumes "\<forall>t \<in> set ts. int64 t"
  shows "distinct (map genNonce ts) \<longleftrightarrow> distinct ts"
proof -
  have "inj_on genNonce (set ts)"
    using assms by (auto intro!: inj_onI genNonce_inj)
  then show ?thesis by (simp add: distinct_map)
qed

theorem genNonce_distinct_iff_witness:
  "int64 1700000000000000 \<and> int64 1700000000000001 \<and>
   distinct (map genNonce [1700000000000000, 1700000000000001]) \<and>
   distinct [1700000000000000 :: int, 1700000000000001]"
proof -
  have h: "\<forall>t \<in> set [1700000000000000, 1700000000000001]. int64 t"
    by (simp add: int64_def)
  from genNonce_distinct_iff [OF h] h show ?thesis by (simp add: int64_def)
qed

theorem genNonce_equal_readings_counterexample:
  "\<not> distinct (map genNonce [1700000000000000, 1700000000000000])"
  by simp

subsection \<open>Addresses\<close>

text \<open>The conversion of go-ethereum always yields 20 bytes.\<close>

lemma length_common_HexToAddress: "length (common_HexToAddress s) = 20"
  by (simp add: common_HexToAddress_def BytesToAddress_def Let_def)

text \<open>
  C6, as amended. No step checks the two addresses. \<^verbatim>\<open>sign\<close> converts them with
  \<^verbatim>\<open>common.HexToAddress\<close>, which returns an address for every string and has no error
  result, and uses the strings \<^verbatim>\<open>User\<close> and \<^verbatim>\<open>Signer\<close> only through those addresses (and as
  the values of the fields \<^verbatim>\<open>user\<close> and \<^verbatim>\<open>signer\<close>): with a malformed address it fails or
  succeeds, and stores the same signature, exactly as with any other string that
  \<^verbatim>\<open>HexToAddress\<close> maps to the same address.
\<close>

theorem malformed_address_is_coerced:
  "(if HexToAddress L u = HexToAddress L (User c) \<and> HexToAddress L g = HexToAddress L (Signer c)
    then snd (sign L (c\<lparr>User := u, Signer := g\<rparr>) params0 nonce nano)
           = snd (sign L c params0 nonce nano) \<and>
         index (fst (sign L (c\<lparr>User := u, Signer := g\<rparr>) params0 nonce nano)) ''signature''
           = index (fst (sign L c params0 nonce nano)) ''signature''
    else True)"
proof -
  have "snd (sign L (c\<lparr>User := u, Signer := g\<rparr>) params0 nonce nano)
           = snd (sign L c params0 nonce nano) \<and>
         index (fst (sign L (c\<lparr>User := u, Signer := g\<rparr>) params0 nonce nano)) ''signature''
           = index (fst (sign L c params0 nonce nano)) ''signature''"
    if "HexToAddress L u = HexToAddress L (User c)" "HexToAddress L g = HexToAddress L (Signer c)"
    using that by (simp add: sign_def Let_def index_mapassign split: sum.splits)
  then show ?thesis by simp
qed

theorem malformed_address_is_coerced_witness:
  "\<not> IsHexAddress ''zz'' \<and> \<not> IsHexAddress ''0x1'' \<and>
   IsHexAddress ''0x0000000000000000000000000000000000000000'' \<and>
   IsHexAddress ''0x0000000000000000000000000000000000000001'' \<and>
   HexToAddress test_lib ''zz'' =
     HexToAddress test_lib ''0x0000000000000000000000000000000000000000'' \<and>
   HexToAddress test_lib ''0x1'' =
     HexToAddress test_lib ''0x0000000000000000000000000000000000000001'' \<and>
   (\<forall>params0 nonce nano.
      snd (sign test_lib (test_client\<lparr>User := ''zz'', Signer := ''0x1''\<rparr>) params0 nonce nano)
        = snd (sign test_lib
            (test_client\<lparr>User := ''0x0000000000000000000000000000000000000000'',
               Signer := ''0x0000000000000000000000000000000000000001''\<rparr>) params0 nonce nano))"
proof -
  let ?c = "test_client\<lparr>User := ''0x0000000000000000000000000000000000000000'',
               Signer := ''0x0000000000000000000000000000000000000001''\<rparr>"
  have a: "\<not> IsHexAddress ''zz''" "\<not> IsHexAddress ''0x1''"
    "IsHexAddress ''0x0000000000000000000000000000000000000000''"
    "IsHexAddress ''0x0000000000000000000000000000000000000001''"
    by code_simp+
  have u: "HexToAddress test_lib ''zz'' = HexToAddress test_lib (User ?c)"
    by code_simp
  have g: "HexToAddress test_lib ''0x1'' = HexToAddress test_lib (Signer ?c)"
    by code_simp
  have "snd (sign test_lib (?c\<lparr>User := ''zz'', Signer := ''0x1''\<rparr>) params0 nonce nano)
        = snd (sign test_lib ?c params0 nonce nano)" for params0 nonce nano
    using malformed_address_is_coerced [of test_lib "''zz''" ?c "''0x1''" params0 nonce nano] u g
    by simp
  then show ?thesis
    using a u g by simp
qed

theorem malformed_address_counterexample:
  "\<not> IsHexAddress ''zz'' \<and>
   sign test_lib (test_client\<lparr>User := ''zz''\<rparr>) order_params 1700000000000000 1759212310710123456 =
     ([(''symbol'', VString ''BTCUSDT''), (''side'', VString ''BUY''),
       (''quantity'', VString ''1.5''), (''recvWindow'', VString ''50000''),
       (''timestamp'', VString ''1759212310710''), (''user'', VString ''zz''),
       (''signer'', VString ''0x21cF8Ae13Bb72632562c6Fff438652Ba1a151bb0''),
       (''signature'',
        VString
         ''0x000000000000000000000000000000000000000000000000000000000000003c00000000000000000000000000000000000000000000000000000000000000011c''),
       (''nonce'', VInt 1700000000000000)],
      None)"
  by code_simp

subsection \<open>Only an object document decodes to a map\<close>

lemma bottom_FArr: "bottom_is_array (FArr xs st # fs) = (fs = [] \<or> bottom_is_array fs)"
  by (cases fs) auto

lemma bottom_FObj: "bottom_is_array (FObj m st # fs) = (fs \<noteq> [] \<and> bottom_is_array fs)"
  by (cases fs) auto

lemma no_map_put:
  "bottom_is_array (f # fs) \<Longrightarrow> no_map_state (put v (f # fs) None)"
  by (cases "(v, f # fs, None :: val option)" rule: put.cases)
     (auto simp: bottom_FArr bottom_FObj)

lemma bottom_push: "bottom_is_array (f # fs) \<Longrightarrow> bottom_is_array (g # f # fs)"
  by simp

lemma bottom_replace_top:
  "bottom_is_array (f # g # fs) \<Longrightarrow> bottom_is_array (h # g # fs)"
  by simp

lemma no_map_close:
  assumes "bottom_is_array (f # fs)" "\<not> is_VMap v \<or> fs \<noteq> []"
  shows "no_map_state (put v fs None)"
proof (cases fs)
  case Nil
  with assms show ?thesis by simp
next
  case (Cons g gs)
  with assms(1) have "bottom_is_array (g # gs)" by simp
  then show ?thesis unfolding Cons by (rule no_map_put)
qed

lemma no_map_step: "no_map_state st \<Longrightarrow> no_map_state (parse_step L t st)"
proof (cases st)
  case PErr
  then show ?thesis by simp
next
  case (PState fs res)
  assume a: "no_map_state st"
  show ?thesis
  proof (cases fs)
    case Nil
    with a PState obtain v where "res = Some v" "\<not> is_VMap v"
      by (cases res) auto
    with Nil PState show ?thesis
      by (cases t) auto
  next
    case (Cons f gs)
    with a PState have res: "res = None" and b: "bottom_is_array (f # gs)"
      by (cases res; simp)+
    show ?thesis
    proof (cases f)
      case (FArr xs ast)
      have c: "no_map_state (put (VSlice xs) gs None)"
        using b by (intro no_map_close [of f gs]) (auto simp: FArr)
      have d: "no_map_state (put v (FArr xs ast # gs) None)" for v
        using b unfolding FArr by (rule no_map_put)
      have e: "bottom_is_array (h # FArr xs ast # gs)" for h
        using b unfolding FArr by simp
      have g: "bottom_is_array (FArr xs ast' # gs)" for ast'
        using b unfolding FArr by (cases gs) auto
      show ?thesis
        unfolding PState Cons FArr res using c d e g
        by (cases t; cases ast) auto
    next
      case (FObj m ost)
      from b FObj obtain g hs where gs: "gs = g # hs"
        by (cases gs) auto
      have c: "no_map_state (put v gs None)" for v
        using b by (intro no_map_close [of f gs]) (auto simp: gs)
      have d: "no_map_state (put v (FObj m ost # gs) None)" for v
        using b unfolding FObj by (rule no_map_put)
      have e: "bottom_is_array (h # FObj m ost # gs)" for h
        using b unfolding FObj by simp
      have g: "bottom_is_array (FObj m ost' # gs)" for ost'
        using b unfolding FObj gs by auto
      show ?thesis
        unfolding PState Cons FObj res using c d e g
        by (cases t; cases ost) auto
    qed
  qed
qed

lemma no_map_fold: "no_map_state st \<Longrightarrow> no_map_state (fold (parse_step L) ts st)"
  by (induction ts arbitrary: st) (simp_all add: no_map_step)

lemma no_map_first:
  "t \<noteq> TLBrace \<Longrightarrow> no_map_state (parse_step L t (PState [] None))"
  by (cases t) auto

lemma Unmarshal_not_map:
  assumes "lex bs = [] \<or> hd (lex bs) \<noteq> TLBrace"
  shows "\<not> is_VMap (json_Unmarshal L bs)"
proof (cases "lex bs")
  case Nil
  then show ?thesis by (simp add: json_Unmarshal_def)
next
  case (Cons t ts)
  with assms have "t \<noteq> TLBrace" by simp
  then have "no_map_state (fold (parse_step L) ts (parse_step L t (PState [] None)))"
    by (intro no_map_fold no_map_first)
  then show ?thesis
    unfolding json_Unmarshal_def Cons
    by (auto split: pstate.splits list.splits option.splits)
qed

lemma lex_quote: "lex (CHR 0x22 # s) = [] \<or> hd (lex (CHR 0x22 # s)) \<noteq> TLBrace"
  by (simp split: option.splits)

lemma lex_number_char:
  assumes "number_char c"
  shows "lex (c # s) = [] \<or> hd (lex (c # s)) \<noteq> TLBrace"
proof -
  from assms have "c \<noteq> CHR ''{''" "c \<noteq> CHR ''}''" "c \<noteq> CHR ''[''" "c \<noteq> CHR '']''"
    "c \<noteq> CHR '',''" "c \<noteq> CHR '':''" "c \<noteq> CHR 0x22" "c \<noteq> CHR ''t''" "c \<noteq> CHR ''f''"
    "c \<noteq> CHR ''n''" "\<not> space_char c"
    by (auto simp: number_char_def space_char_def)
  with assms show ?thesis by (simp only: lex.simps if_False if_True list.sel split: if_splits) simp
qed

lemma hd_int_digits: "int_digits n \<noteq> [] \<and> hd (int_digits n) \<in> set ''0123456789''"
proof (induction n rule: int_digits.induct)
  case (1 n)
  show ?case
  proof (cases "n < 10")
    case True
    then have "nat n < length ''0123456789''" by simp
    then have "digit_char n \<in> set ''0123456789''"
      unfolding digit_char_def by (rule nth_mem)
    with True show ?thesis by (simp add: int_digits.simps [of n])
  next
    case False
    with 1 show ?thesis by (simp add: int_digits.simps [of n])
  qed
qed

lemma hd_FormatInt: "FormatInt i \<noteq> [] \<and> number_char (hd (FormatInt i))"
  using hd_int_digits [of i] hd_int_digits [of "- i"]
  by (auto simp: FormatInt_def number_char_def)

lemma lex_encoded_not_object:
  assumes "json_encode L v = Inr bs"
    and "\<forall>m. v \<noteq> VMap m" "\<forall>fs. v \<noteq> VStruct fs"
    and "\<forall>f. FormatFloat L f \<noteq> [] \<and> number_char (hd (FormatFloat L f))"
  shows "lex bs = [] \<or> hd (lex bs) \<noteq> TLBrace"
proof (cases v)
  case VNil
  with assms(1) have "bs = ''null''" by simp
  then show ?thesis by simp
next
  case (VBool b)
  with assms(1) have "bs = ''true'' \<or> bs = ''false''" by (auto split: if_splits)
  then show ?thesis by auto
next
  case (VFloat f)
  with assms(1) have bs: "bs = FormatFloat L f" by (auto split: if_splits)
  from assms(4) have "FormatFloat L f \<noteq> []" "number_char (hd (FormatFloat L f))"
    by auto
  then obtain c s where "FormatFloat L f = c # s" "number_char c"
    by (cases "FormatFloat L f") auto
  then have "lex (c # s) = [] \<or> hd (lex (c # s)) \<noteq> TLBrace"
    by (simp only: lex_number_char)
  with bs \<open>_ = c # s\<close> show ?thesis by (simp only:)
next
  case (VInt i)
  with assms(1) have bs: "bs = FormatInt i" by simp
  from hd_FormatInt [of i] obtain c s where "FormatInt i = c # s" "number_char c"
    by (cases "FormatInt i") auto
  then have "lex (c # s) = [] \<or> hd (lex (c # s)) \<noteq> TLBrace"
    by (simp only: lex_number_char)
  with bs \<open>_ = c # s\<close> show ?thesis by (simp only:)
next
  case (VString s)
  with assms(1) have "bs = CHR 0x22 # appendString_loop s @ [CHR 0x22]"
    by (simp add: appendString_def)
  then show ?thesis using lex_quote [of "appendString_loop s @ [CHR 0x22]"] by (simp only:)
next
  case (VSlice xs)
  with assms(1) obtain r where "bs = CHR ''['' # r"
    by (auto split: sum.splits)
  then show ?thesis by simp
next
  case (VMap m)
  with assms(2) show ?thesis by simp
next
  case (VIMap m)
  with assms(1) show ?thesis by simp
next
  case (VStruct fs)
  with assms(3) show ?thesis by simp
next
  case VOther
  with assms(1) show ?thesis by simp
qed

lemma clone_not_map:
  assumes "\<forall>m. v \<noteq> VMap m" "\<forall>fs. v \<noteq> VStruct fs"
    and "\<forall>f. FormatFloat L f \<noteq> [] \<and> number_char (hd (FormatFloat L f))"
  shows "fst (cloneInterface L v) \<noteq> VMap m"
proof (cases "json_Marshal L v")
  case (Inl e)
  with assms(1) show ?thesis by (simp add: cloneInterface_def)
next
  case (Inr bs)
  then have "json_encode L v = Inr bs" by (simp add: json_Marshal_def)
  from lex_encoded_not_object [OF this assms] have "\<not> is_VMap (json_Unmarshal L bs)"
    by (rule Unmarshal_not_map)
  with Inr show ?thesis by (auto simp: cloneInterface_def)
qed

subsection \<open>Client.call\<close>

lemma call_not_map:
  assumes "\<And>m. fst (cloneInterface L (index api ''params'')) \<noteq> VMap m"
  shows "call L c api do_sign micro nano =
     \<lparr>returned = Inl (errorString ''params must be map[string]interface{}''),
      requests = [], template = index api ''params''\<rparr>"
  using assms
  by (cases "cloneInterface L (index api ''params'')")
     (auto simp: call_def Let_def split: val.splits)

lemma call_sign_failed:
  assumes "cloneInterface L (index api ''params'') = (VMap paramsMap, same)"
    and "sign L c paramsMap (genNonce micro) nano = (params1, Some e)"
  shows "call L c api True micro nano =
     \<lparr>returned = Inl e, requests = [],
      template = (if same then VMap params1 else index api ''params'')\<rparr>"
  using assms by (simp add: call_def Let_def)

lemma template_of_call_send [simp]: "template (call_send L c api paramsMap tmpl) = tmpl"
  by (simp add: call_send_def Let_def split: sum.splits prod.splits)

text \<open>
  When \<^verbatim>\<open>json.Marshal\<close> accepts the template, \<^verbatim>\<open>cloneInterface\<close> returns a new value and
  the call leaves the caller's object as it was.
\<close>

lemma template_kept_when_marshal_succeeds:
  assumes "json_Marshal L (index api ''params'') = Inr bs"
  shows "template (call L c api do_sign micro nano) = index api ''params''"
  using assms
  by (auto simp: call_def cloneInterface_def Let_def split: val.splits prod.splits option.splits)

text \<open>
  C7, as amended. A failure of canonicalization, of tuple encoding or of the signing step
  makes \<^verbatim>\<open>sign\<close> return an error, and then \<^verbatim>\<open>Client.call\<close> returns exactly the error
  \<^verbatim>\<open>sign\<close> returned, no data, and hands no request to the transport. That error is the
  originating error itself for a canonicalization failure and for a failure of
  \<^verbatim>\<open>abi.NewType\<close>; for a failure of \<^verbatim>\<open>Pack\<close>, of the parsing of the private key and of
  \<^verbatim>\<open>crypto.Sign\<close> it is the originating error wrapped by \<^verbatim>\<open>fmt.Errorf\<close> under the prefix
  \<^verbatim>\<open>abi pack error: \<close>, \<^verbatim>\<open>invalid private key: \<close> or \<^verbatim>\<open>sign error: \<close>; for a signature of
  the wrong length it is a new error.
\<close>

theorem call_returns_sign_error:
  assumes "cloneInterface L (index api ''params'') = (VMap paramsMap, same)"
    and "sign L c paramsMap (genNonce micro) nano = (params1, Some e)"
  shows "returned (call L c api True micro nano) = Inl e \<and>
     requests (call L c api True micro nano) = [] \<and>
     (case normalizeAndStringify L (VMap (fresh_params paramsMap nano)) of
        Inl err \<Rightarrow> e = err
      | Inr trimmed \<Rightarrow>
     (case NewType L ''string'' of
        Inl err \<Rightarrow> e = err
      | Inr tString \<Rightarrow>
     (case NewType L ''address'' of
        Inl err \<Rightarrow> e = err
      | Inr tAddress \<Rightarrow>
     (case NewType L ''uint256'' of
        Inl err \<Rightarrow> e = err
      | Inr tUint256 \<Rightarrow>
     (case Pack L [tString, tAddress, tAddress, tUint256]
             [ArgString trimmed, ArgAddress (HexToAddress L (User c)),
              ArgAddress (HexToAddress L (Signer c)), ArgBigInt (genNonce micro)] of
        Inl err \<Rightarrow> e = wrapError ''abi pack error: '' err
      | Inr packed \<Rightarrow>
     (case HexToECDSA L (TrimPrefix (PriKeyHex c) ''0x'') of
        Inl err \<Rightarrow> e = wrapError ''invalid private key: '' err
      | Inr privKey \<Rightarrow>
     (case Sign L (message_digest L packed) privKey of
        Inl err \<Rightarrow> e = wrapError ''sign error: '' err
      | Inr sig \<Rightarrow>
          e = errorString (''unexpected signature length: '' @ FormatInt (int (length sig))))))))))"
proof -
  have r: "returned (call L c api True micro nano) = Inl e"
    "requests (call L c api True micro nano) = []"
    by (simp_all add: call_sign_failed [OF assms])
  have st: "(case normalizeAndStringify L (VMap (fresh_params paramsMap nano)) of
        Inl err \<Rightarrow> e = err
      | Inr trimmed \<Rightarrow>
     (case NewType L ''string'' of
        Inl err \<Rightarrow> e = err
      | Inr tString \<Rightarrow>
     (case NewType L ''address'' of
        Inl err \<Rightarrow> e = err
      | Inr tAddress \<Rightarrow>
     (case NewType L ''uint256'' of
        Inl err \<Rightarrow> e = err
      | Inr tUint256 \<Rightarrow>
     (case Pack L [tString, tAddress, tAddress, tUint256]
             [ArgString trimmed, ArgAddress (HexToAddress L (User c)),
              ArgAddress (HexToAddress L (Signer c)), ArgBigInt (genNonce micro)] of
        Inl err \<Rightarrow> e = wrapError ''abi pack error: '' err
      | Inr packed \<Rightarrow>
     (case HexToECDSA L (TrimPrefix (PriKeyHex c) ''0x'') of
        Inl err \<Rightarrow> e = wrapError ''invalid private key: '' err
      | Inr privKey \<Rightarrow>
     (case Sign L (message_digest L packed) privKey of
        Inl err \<Rightarrow> e = wrapError ''sign error: '' err
      | Inr sig \<Rightarrow>
          e = errorString (''unexpected signature length: '' @ FormatInt (int (length sig))))))))))"
    using assms(2)
    by (auto simp: sign_def fresh_params_def message_digest_def Let_def split: sum.splits if_splits)
  show ?thesis using r st by (intro conjI)
qed

theorem call_returns_sign_error_witness:
  "cloneInterface test_lib (index (order_api (VMap order_params)) ''params'') =
     (VMap [(''quantity'', VString ''1.5''), (''side'', VString ''BUY''),
            (''symbol'', VString ''BTCUSDT'')], False) \<and>
   sign test_lib (test_client\<lparr>PriKeyHex := ''0xzz''\<rparr>)
       [(''quantity'', VString ''1.5''), (''side'', VString ''BUY''), (''symbol'', VString ''BTCUSDT'')]
       (genNonce 1700000000000000) 1759212310710123456 =
     ([(''quantity'', VString ''1.5''), (''side'', VString ''BUY''), (''symbol'', VString ''BTCUSDT''),
       (''recvWindow'', VString ''50000''), (''timestamp'', VString ''1759212310710'')],
      Some (wrapError ''invalid private key: '' (LibError ''invalid hex data for private key''))) \<and>
   returned (call test_lib (test_client\<lparr>PriKeyHex := ''0xzz''\<rparr>) (order_api (VMap order_params)) True
       1700000000000000 1759212310710123456) =
     Inl (wrapError ''invalid private key: '' (LibError ''invalid hex data for private key'')) \<and>
   requests (call test_lib (test_client\<lparr>PriKeyHex := ''0xzz''\<rparr>) (order_api (VMap order_params)) True
       1700000000000000 1759212310710123456) = []"
proof -
  have c: "cloneInterface test_lib (index (order_api (VMap order_params)) ''params'') =
     (VMap [(''quantity'', VString ''1.5''), (''side'', VString ''BUY''),
            (''symbol'', VString ''BTCUSDT'')], False)"
    by code_simp
  have s: "sign test_lib (test_client\<lparr>PriKeyHex := ''0xzz''\<rparr>)
       [(''quantity'', VString ''1.5''), (''side'', VString ''BUY''), (''symbol'', VString ''BTCUSDT'')]
       (genNonce 1700000000000000) 1759212310710123456 =
     ([(''quantity'', VString ''1.5''), (''side'', VString ''BUY''), (''symbol'', VString ''BTCUSDT''),
       (''recvWindow'', VString ''50000''), (''timestamp'', VString ''1759212310710'')],
      Some (wrapError ''invalid private key: '' (LibError ''invalid hex data for private key'')))"
    by code_simp
  from call_returns_sign_error [OF c s] c s show ?thesis by blast
qed

theorem call_wraps_key_error_counterexample:
  "HexToECDSA test_lib (TrimPrefix (PriKeyHex (test_client\<lparr>PriKeyHex := ''0xzz''\<rparr>)) ''0x'') =
     Inl (LibError ''invalid hex data for private key'') \<and>
   returned (call test_lib (test_client\<lparr>PriKeyHex := ''0xzz''\<rparr>) (order_api (VMap order_params)) True
       1700000000000000 1759212310710123456) \<noteq> Inl (LibError ''invalid hex data for private key'')"
  by code_simp

text \<open>
  C10, as amended. \<^verbatim>\<open>Client.call\<close> tests the type of the value \<^verbatim>\<open>cloneInterface\<close> returns,
  and the JSON round trip turns every value that encodes as an object into a
  \<^verbatim>\<open>map[string]interface{}\<close>. So the rejection holds for the entries that are neither a
  \<^verbatim>\<open>map[string]interface{}\<close> nor a struct: for every such \<^verbatim>\<open>api["params"]\<close> (an absent
  entry, a boolean, a number, a string, a slice, a \<^verbatim>\<open>map[interface{}]interface{}\<close>, a
  channel, ...) the call returns the error \<^verbatim>\<open>params must be map[string]interface{}\<close>,
  hands no request to the transport and leaves the entry as it was, whether or not the
  endpoint is signed. The float formatter is a parameter; all that is asked of it is that
  the text of a float starts like a number, as the text \<^verbatim>\<open>encoding/json\<close> writes does.
\<close>

theorem call_rejects_non_object_params:
  assumes "\<forall>f. FormatFloat L f \<noteq> [] \<and> number_char (hd (FormatFloat L f))"
    and "\<forall>m. index api ''params'' \<noteq> VMap m"
    and "\<forall>fs. index api ''params'' \<noteq> VStruct fs"
  shows "call L c api do_sign micro nano =
     \<lparr>returned = Inl (errorString ''params must be map[string]interface{}''),
      requests = [], template = index api ''params''\<rparr>"
  by (rule call_not_map) (rule clone_not_map [OF assms(2) assms(3) assms(1)])

theorem call_rejects_non_object_params_witness:
  "(\<forall>f. FormatFloat test_lib f \<noteq> [] \<and> number_char (hd (FormatFloat test_lib f))) \<and>
   index (order_api (VSlice [VString ''BTCUSDT''])) ''params'' = VSlice [VString ''BTCUSDT''] \<and>
   index ([] :: (string \<times> val) list) ''params'' = VNil \<and>
   call test_lib test_client (order_api (VSlice [VString ''BTCUSDT''])) True 1700000000000000
       1759212310710123456 =
     \<lparr>returned = Inl (errorString ''params must be map[string]interface{}''),
      requests = [], template = VSlice [VString ''BTCUSDT'']\<rparr> \<and>
   call test_lib test_client [] True 1700000000000000 1759212310710123456 =
     \<lparr>returned = Inl (errorString ''params must be map[string]interface{}''),
      requests = [], template = VNil\<rparr>"
proof -
  have f: "\<forall>f. FormatFloat test_lib f \<noteq> [] \<and> number_char (hd (FormatFloat test_lib f))"
    by (simp add: test_lib_def number_char_def)
  have i: "index (order_api (VSlice [VString ''BTCUSDT''])) ''params'' = VSlice [VString ''BTCUSDT'']"
    "index ([] :: (string \<times> val) list) ''params'' = VNil"
    by (simp_all add: order_api_def index_def)
  have "call test_lib test_client (order_api (VSlice [VString ''BTCUSDT''])) True 1700000000000000
       1759212310710123456 =
     \<lparr>returned = Inl (errorString ''params must be map[string]interface{}''),
      requests = [], template = VSlice [VString ''BTCUSDT'']\<rparr>"
    using call_rejects_non_object_params [OF f, of "order_api (VSlice [VString ''BTCUSDT''])"] i
    by simp
  moreover have "call test_lib test_client [] True 1700000000000000 1759212310710123456 =
     \<lparr>returned = Inl (errorString ''params must be map[string]interface{}''),
      requests = [], template = VNil\<rparr>"
    using call_rejects_non_object_params [OF f, of "[]"] i by simp
  ultimately show ?thesis using f i by blast
qed

theorem call_accepts_struct_counterexample:
  "call test_lib test_client
     (order_api (VStruct [(''symbol'', VString ''BTCUSDT''), (''side'', VString ''BUY'')])) True
     1700000000000000 1759212310710123456 =
   \<lparr>returned = Inr [],
    requests =
      [(''https://fapi.asterdex.com/fapi/v3/order'', ''POST'',
        [(''symbol'', VString ''BTCUSDT''), (''side'', VString ''BUY''),
         (''recvWindow'', VString ''50000''),
         (''timestamp'', VString ''1759212310710''),
         (''user'', VString ''0x63DD5aCC6b1aa0f563956C0e534DD30B6dcF7C4e''),
         (''signer'', VString ''0x21cF8Ae13Bb72632562c6Fff438652Ba1a151bb0''),
         (''signature'',
          VString
           ''0x000000000000000000000000000000000000000000000000000000000000003c00000000000000000000000000000000000000000000000000000000000000011c''),
         (''nonce'', VInt 1700000000000000)])],
    template = VStruct [(''symbol'', VString ''BTCUSDT''), (''side'', VString ''BUY'')]\<rparr>"
  by code_simp

text \<open>
  C4. The template is not left unchanged when \<^verbatim>\<open>json.Marshal\<close> rejects it: a \<^verbatim>\<open>NaN\<close> price
  makes \<^verbatim>\<open>cloneInterface\<close> return the caller's map itself, \<^verbatim>\<open>sign\<close> assigns \<^verbatim>\<open>recvWindow\<close>
  and \<^verbatim>\<open>timestamp\<close> in it and then fails; with a nested \<^verbatim>\<open>map[interface{}]interface{}\<close>
  the call even succeeds and all six fields end up in the caller's map.
\<close>

theorem template_mutated_when_marshal_fails:
  "call test_lib test_client
     (order_api (VMap [(''symbol'', VString ''BTCUSDT''), (''side'', VString ''BUY''),
                       (''price'', VFloat 0x7FF8000000000000)])) True
     1700000000000000 1759212310710123456 =
   \<lparr>returned = Inl (UnsupportedValueError ''NaN''), requests = [],
    template =
      VMap [(''symbol'', VString ''BTCUSDT''), (''side'', VString ''BUY''),
            (''price'', VFloat 0x7FF8000000000000),
            (''recvWindow'', VString ''50000''),
            (''timestamp'', VString ''1759212310710'')]\<rparr> \<and>
   template (call test_lib test_client
     (order_api (VMap [(''symbol'', VString ''BTCUSDT''), (''side'', VString ''BUY''),
                       (''meta'', VIMap [(KString ''tag'', VString ''a'')])])) True
     1700000000000000 1759212310710123456) =
      VMap [(''symbol'', VString ''BTCUSDT''), (''side'', VString ''BUY''),
            (''meta'', VIMap [(KString ''tag'', VString ''a'')]),
            (''recvWindow'', VString ''50000''),
            (''timestamp'', VString ''1759212310710''),
            (''user'', VString ''0x63DD5aCC6b1aa0f563956C0e534DD30B6dcF7C4e''),
            (''signer'', VString ''0x21cF8Ae13Bb72632562c6Fff438652Ba1a151bb0''),
            (''signature'',
             VString
              ''0x000000000000000000000000000000000000000000000000000000000000003c00000000000000000000000000000000000000000000000000000000000000011c''),
            (''nonce'', VInt 1700000000000000)]"
  by code_simp

end
